theory Spec2Isabelle
  imports Complex_Main
begin

section \<open>Python values and exceptions\<close>

text \<open>
  Python numbers (ints and floats alike) that end up in poses and colours are reals
  here, every float being the real it denotes; an index passed to the canvas is a Python
  int, modelled as \<open>int\<close>.
  Every exception the modelled code can raise is a value of \<open>exn\<close>.
  \<open>HardwareError\<close> stands for any \<open>Exception\<close> raised inside the vendor library.
\<close>

datatype exn = AttributeError | IndexError | ValueError | HardwareError | OSError

text \<open>
  Python floats are IEEE binary64 numbers. \<open>fl64 v\<close> is the double nearest to the real
  \<open>v\<close>, a tie going to the even significand: 53 significant bits, the unit in the last
  place being \<open>2 ^ (e - 52)\<close> for \<open>2 ^ e \<le> |v| < 2 ^ (e + 1)\<close> (so \<open>e\<close> is the floor of the
  real logarithm of \<open>|v|\<close> to base 2), and \<open>2 ^ (- 1074)\<close> below the normal range. A float addition or subtraction returns \<open>fl64\<close> of the exact result
  on its two operands; \<open>abs\<close> and comparisons are exact. An operand that is not itself a
  double stands for the double nearest to it, as a decimal literal does. Overflow to
  infinity is left out: the numbers here are millimetres and degrees. An int operand of
  magnitude below \<open>2 ^ 53\<close> converts to a float exactly, and on such ints the exact int
  operation and the float operation agree.
\<close>

definition round_half_even :: "real \<Rightarrow> int" where
  "round_half_even v =
     (let f = \<lfloor>v\<rfloor>; d = v - of_int f
      in if d < 1 / 2 then f else if 1 / 2 < d then f + 1 else if even f then f else f + 1)"

definition fl64 :: "real \<Rightarrow> real" where
  "fl64 v =
     (if v = 0 then 0
      else let e = max \<lfloor>log 2 \<bar>v\<bar>\<rfloor> (- 1022);
               ulp = 2 powr (of_int e - 52)
           in of_int (round_half_even (v / ulp)) * ulp)"

definition fsub :: "real \<Rightarrow> real \<Rightarrow> real" where
  "fsub a b = fl64 (fl64 a - fl64 b)"

definition fadd :: "real \<Rightarrow> real \<Rightarrow> real" where
  "fadd a b = fl64 (fl64 a + fl64 b)"

section \<open>Rectangular grid generator (gui\_node.py, generate\_grid\_points)\<close>

text \<open>The builtin \<open>range(start, stop, step)\<close> on ints; a zero step raises ValueError.\<close>

definition range_len :: "int \<Rightarrow> int \<Rightarrow> int \<Rightarrow> nat" where
  "range_len start stop step =
     (if 0 < step then (if start < stop then nat ((stop - start - 1) div step + 1) else 0)
      else if step < 0 then (if stop < start then nat ((start - stop - 1) div (- step) + 1) else 0)
      else 0)"

definition py_range :: "int \<Rightarrow> int \<Rightarrow> int \<Rightarrow> exn + int list" where
  "py_range start stop step =
     (if step = 0 then Inl ValueError
      else Inr (map (\<lambda>k. start + int k * step) [0..<range_len start stop step]))"

text \<open>A \<open>for\<close> loop whose body appends to \<open>points\<close> and may raise.\<close>

fun for_each :: "'a list \<Rightarrow> ('a \<Rightarrow> exn + 'b list) \<Rightarrow> exn + 'b list" where
  "for_each [] body = Inr []"
| "for_each (a # as) body =
     (case body a of
        Inl e \<Rightarrow> Inl e
      | Inr bs \<Rightarrow> (case for_each as body of Inl e \<Rightarrow> Inl e | Inr cs \<Rightarrow> Inr (bs @ cs)))"

text \<open>
  \<open>generate_grid_points(x_range, y_range, z_values, step)\<close>. The \<open>print\<close> of the number
  of points is console output only and is not part of the returned value.
\<close>

definition generate_grid_points ::
  "int \<times> int \<Rightarrow> int \<times> int \<Rightarrow> real list \<Rightarrow> int \<Rightarrow> exn + real list list" where
  "generate_grid_points x_range y_range z_values step =
     for_each z_values (\<lambda>z.
       case py_range (fst x_range) (snd x_range + 1) step of
         Inl e \<Rightarrow> Inl e
       | Inr xs \<Rightarrow> for_each xs (\<lambda>x.
           case py_range (fst y_range) (snd y_range + 1) step of
             Inl e \<Rightarrow> Inl e
           | Inr ys \<Rightarrow> Inr (map (\<lambda>y. [of_int x, of_int y, z, 180, 0, 0]) ys)))"

text \<open>The call with every parameter left at its default.\<close>

definition generate_grid_points_default :: "exn + real list list" where
  "generate_grid_points_default =
     generate_grid_points (- 300, 300) (- 300, 300) [40, 50, 100, 200] 50"

section \<open>Visualization canvas (gui\_node.py, class MplCanvas)\<close>

type_synonym color = "real \<times> real \<times> real \<times> real"

definition blue :: color where "blue = (0, 0, 1, 0.4)"
definition white :: color where "white = (1, 1, 1, 0.7)"
definition red :: color where "red = (1, 0, 0, 1.0)"
definition yellow :: color where "yellow = (1, 1, 0, 0.9)"
definition gray :: color where "gray = (0.5, 0.5, 0.5, 0.8)"
definition green :: color where "green = (0, 1, 0, 1)"

text \<open>
  The canvas fields that the methods read and write: \<open>self.points\<close> (here \<open>cpoints\<close>,
  since the main window has a field \<open>points\<close> of its own), \<open>self.colors\<close>, and
  \<open>self.scatter\<close>, of which the model keeps whether the layer it refers to is still in the
  axes (\<open>scatter = True\<close>) or has been removed.
\<close>

record canvas =
  cpoints :: "real list list"
  colors :: "color list"
  scatter :: bool

text \<open>
  What matplotlib does with the arguments it is given. An RGBA tuple is accepted when its
  four components lie in [0, 1]. \<open>ax_scatter pts cols\<close> is the evaluation of
  \<open>self.ax.scatter([p[0] for p in pts], [p[1] for p in pts], [p[2] for p in pts], c=cols,
  s=40, depthshade=True)\<close>: the comprehensions raise IndexError on a pose of fewer than three
  components; the call raises ValueError unless there is one accepted colour per pose;
  otherwise it returns a new layer, in the axes.
\<close>

definition valid_color :: "color \<Rightarrow> bool" where
  "valid_color k =
     (case k of (r, g, b, a) \<Rightarrow>
        0 \<le> r \<and> r \<le> 1 \<and> 0 \<le> g \<and> g \<le> 1 \<and> 0 \<le> b \<and> b \<le> 1 \<and> 0 \<le> a \<and> a \<le> 1)"

definition ax_scatter :: "real list list \<Rightarrow> color list \<Rightarrow> exn option" where
  "ax_scatter pts cols =
     (if list_all (\<lambda>p. 3 \<le> length p) pts
      then (if length cols = length pts \<and> list_all valid_color cols then None
            else Some ValueError)
      else Some IndexError)"

text \<open>
  \<open>MplCanvas.__init__(points)\<close>: one translucent blue entry per pose, then the first
  scatter layer. The axis limits and labels set afterwards hold no state the methods read.
\<close>

definition MplCanvas :: "real list list \<Rightarrow> exn + canvas" where
  "MplCanvas pts =
     (case ax_scatter pts (replicate (length pts) blue) of
        Some e \<Rightarrow> Inl e
      | None \<Rightarrow> Inr \<lparr>cpoints = pts, colors = replicate (length pts) blue, scatter = True\<rparr>)"

text \<open>
  The canvas methods return the exception that escapes them, if any, and the canvas as
  they leave it: the object outlives the exception, with the assignments made before it.

  The redraw that ends both methods: \<open>self.scatter.remove()\<close>, \<open>self.scatter =
  self.ax.scatter(...)\<close>, \<open>self.draw()\<close>. Removing a layer that is no longer in the axes
  raises ValueError. When \<open>ax.scatter\<close> raises, the old layer is already removed and
  \<open>self.scatter\<close> still refers to it.
\<close>

definition redraw :: "canvas \<Rightarrow> exn option \<times> canvas" where
  "redraw c =
     (if scatter c
      then (case ax_scatter (cpoints c) (colors c) of
              Some e \<Rightarrow> (Some e, c\<lparr>scatter := False\<rparr>)
            | None \<Rightarrow> (None, c\<lparr>scatter := True\<rparr>))
      else (Some ValueError, c))"

text \<open>
  \<open>update_point_color(index, color)\<close>. After the range guard the assignment
  \<open>self.colors[index] = color\<close> raises IndexError when the colour array is shorter
  than the index.
\<close>

definition update_point_color :: "canvas \<Rightarrow> int \<Rightarrow> color \<Rightarrow> exn option \<times> canvas" where
  "update_point_color c index color =
     (if \<not> (0 \<le> index \<and> index < int (length (cpoints c))) then (None, c)
      else if nat index < length (colors c)
           then redraw (c\<lparr>colors := (colors c)[nat index := color]\<rparr>)
           else (Some IndexError, c))"

text \<open>
  The loop of \<open>highlight_point\<close> over \<open>range(len(self.points))\<close>: an entry that is white
  or red is kept, any other entry is set to blue; reading \<open>self.colors[i]\<close> past the
  end of the colour array raises IndexError, the entries before it already reset.
\<close>

fun reset_unvisited :: "nat list \<Rightarrow> color list \<Rightarrow> exn option \<times> color list" where
  "reset_unvisited [] cols = (None, cols)"
| "reset_unvisited (i # is) cols =
     (if i < length cols
      then (if cols ! i \<in> set [white, red] then reset_unvisited is cols
            else reset_unvisited is (cols[i := blue]))
      else (Some IndexError, cols))"

definition highlight_point :: "canvas \<Rightarrow> int \<Rightarrow> exn option \<times> canvas" where
  "highlight_point c index =
     (case reset_unvisited [0..<length (cpoints c)] (colors c) of
        (Some e, cols) \<Rightarrow> (Some e, c\<lparr>colors := cols\<rparr>)
      | (None, cols) \<Rightarrow>
          if 0 \<le> index \<and> index < int (length (cpoints c))
          then (if nat index < length cols
                then redraw (c\<lparr>colors := cols[nat index := yellow]\<rparr>)
                else (Some IndexError, c\<lparr>colors := cols\<rparr>))
          else redraw (c\<lparr>colors := cols\<rparr>))"

text \<open>
  A sequence of calls on one canvas. A call that raises does not end the life of the
  canvas: the next call finds it as the raising call left it.
\<close>

datatype canvas_op = Update_point_color int color | Highlight_point int

fun canvas_call :: "canvas \<Rightarrow> canvas_op \<Rightarrow> exn option \<times> canvas" where
  "canvas_call c (Update_point_color index color) = update_point_color c index color"
| "canvas_call c (Highlight_point index) = highlight_point c index"

fun canvas_calls :: "canvas \<Rightarrow> canvas_op list \<Rightarrow> canvas" where
  "canvas_calls c [] = c"
| "canvas_calls c (op # ops) = canvas_calls (snd (canvas_call c op)) ops"

text \<open>
  A canvas as construction and every redraw that succeeded leave it: the layer in the
  axes, every pose of at least three components, one accepted colour per pose.
\<close>

definition drawable :: "canvas \<Rightarrow> bool" where
  "drawable c =
     (scatter c \<and> list_all (\<lambda>p. 3 \<le> length p) (cpoints c)
      \<and> length (colors c) = length (cpoints c) \<and> list_all valid_color (colors c))"

section \<open>Polar grid generator (point\_generator.py)\<close>

text \<open>The module constants.\<close>

definition Z_LAYERS :: "real list" where "Z_LAYERS = [40.0, 100.0, 150.0, 200.0]"
definition MAX_RADIUS :: real where "MAX_RADIUS = 200.0"
definition RADIUS_STEP :: real where "RADIUS_STEP = 20.0"
definition ANGLE_STEPS :: nat where "ANGLE_STEPS = 12"
definition RX_FIXED :: real where "RX_FIXED = 180.0"
definition RY_FIXED :: real where "RY_FIXED = 0.0"
definition RZ_FIXED :: real where "RZ_FIXED = 0.0"
definition MAX_REACH :: real where "MAX_REACH = 280.0"

text \<open>
  The builtin \<open>round(v, 2)\<close>: the nearest multiple of 0.01, a tie going to the even
  hundredth. \<open>math.cos\<close>, \<open>math.sin\<close>, \<open>math.sqrt\<close> and \<open>math.pi\<close> are the real
  functions and constant, and the products, quotients and sums of this generator are
  taken exact.
\<close>

definition py_round2 :: "real \<Rightarrow> real" where
  "py_round2 v = of_int (round_half_even (v * 100)) / 100"

text \<open>The body of the loop over the angle index \<open>i\<close>: the pose appended, if any.\<close>

definition sample :: "real \<Rightarrow> real \<Rightarrow> nat \<Rightarrow> real list list" where
  "sample z radius i =
     (let angle_rad = 2 * pi * real i / real ANGLE_STEPS;
          x = py_round2 (radius * cos angle_rad);
          y = py_round2 (radius * sin angle_rad);
          dist = sqrt (x\<^sup>2 + y\<^sup>2 + z\<^sup>2)
      in if dist \<le> MAX_REACH then [[x, y, z, RX_FIXED, RY_FIXED, RZ_FIXED]] else [])"

text \<open>
  The \<open>while radius <= MAX_RADIUS\<close> loop of one layer, with the \<open>for i in range(ANGLE_STEPS)\<close>
  loop inside; it returns the poses appended from \<open>radius\<close> on.
\<close>

function radius_loop :: "real \<Rightarrow> real \<Rightarrow> real list list" where
  "radius_loop z radius =
     (if radius \<le> MAX_RADIUS
      then concat (map (sample z radius) [0..<ANGLE_STEPS]) @ radius_loop z (radius + RADIUS_STEP)
      else [])"
  by pat_completeness auto
termination
proof (relation "measure (\<lambda>(z, radius). nat (\<lfloor>(MAX_RADIUS - radius) / RADIUS_STEP\<rfloor> + 1))")
  show "wf (measure (\<lambda>(z, radius). nat (\<lfloor>(MAX_RADIUS - radius) / RADIUS_STEP\<rfloor> + 1)))"
    by simp
next
  fix z radius :: real
  assume le: "radius \<le> MAX_RADIUS"
  have "(MAX_RADIUS - (radius + RADIUS_STEP)) / RADIUS_STEP = (MAX_RADIUS - radius) / RADIUS_STEP - 1"
    by (simp add: RADIUS_STEP_def field_simps)
  then have "\<lfloor>(MAX_RADIUS - (radius + RADIUS_STEP)) / RADIUS_STEP\<rfloor> = \<lfloor>(MAX_RADIUS - radius) / RADIUS_STEP\<rfloor> - 1"
    by simp
  moreover have "0 \<le> \<lfloor>(MAX_RADIUS - radius) / RADIUS_STEP\<rfloor>"
    using le by (simp add: RADIUS_STEP_def)
  ultimately show "((z, radius + RADIUS_STEP), (z, radius))
        \<in> measure (\<lambda>(z, radius). nat (\<lfloor>(MAX_RADIUS - radius) / RADIUS_STEP\<rfloor> + 1))"
    by simp
qed

declare radius_loop.simps [simp del]

text \<open>\<open>generate_points()\<close>: the layers in order, each swept from \<open>RADIUS_STEP\<close>.\<close>

definition generate_points :: "real list list" where
  "generate_points = concat (map (\<lambda>z. radius_loop z RADIUS_STEP) Z_LAYERS)"

text \<open>
  A pose of six components whose position is at most 280 from the origin and whose
  orientation is (180, 0, 0); used to state the reach bound.
\<close>

definition within_reach :: "real list \<Rightarrow> bool" where
  "within_reach p = (case p of
       [x, y, z, rx, ry, rz] \<Rightarrow> sqrt (x\<^sup>2 + y\<^sup>2 + z\<^sup>2) \<le> 280 \<and> rx = 180 \<and> ry = 0 \<and> rz = 0
     | _ \<Rightarrow> False)"

section \<open>Hardware control interface (pymycobot), as the application calls it\<close>

text \<open>
  A call into the vendor library either returns a value or raises an exception that
  \<open>except Exception\<close> catches.
\<close>

datatype 'a reply = Returns 'a | Raises

text \<open>
  The connection handle \<open>self.mc\<close>: the methods the application calls, each acting on
  the state \<open>'d\<close> of the device behind the handle. \<open>stop\<close> is optional, as
  \<open>hasattr(self.mc, "stop")\<close> tests. \<open>get_coords\<close> returns a list of numbers (six for a
  pose, but the application does not check), \<open>is_moving\<close> the truth value of its result.
\<close>

record 'd mycobot =
  send_coords :: "real list \<Rightarrow> int \<Rightarrow> int \<Rightarrow> 'd \<Rightarrow> unit reply \<times> 'd"
  get_coords :: "'d \<Rightarrow> real list reply \<times> 'd"
  is_moving :: "'d \<Rightarrow> bool reply \<times> 'd"
  stop :: "('d \<Rightarrow> unit reply \<times> 'd) option"
  send_angles :: "real list \<Rightarrow> int \<Rightarrow> 'd \<Rightarrow> unit reply \<times> 'd"
  release_all_servos :: "'d \<Rightarrow> unit reply \<times> 'd"

text \<open>
  The hardware calls the application makes, recorded in order in the field \<open>calls\<close>.
\<close>

datatype hwcall =
    Send_coords "real list" int int
  | Get_coords
  | Is_moving
  | Stop
  | Send_angles "real list" int
  | Release_all_servos

section \<open>Main window state (gui\_node.py, class WorkspaceGUI)\<close>

text \<open>
  The lines written by \<open>self.log\<close> (status feed and console) and by \<open>print\<close> (console
  only), one constructor per message of the source, with the values it formats; the
  clock prefix of a logged line is left out.
\<close>

datatype msg =
    No_robot_connected
  | Send_coords_failed
  | Called_mc_stop
  | Mc_stop_raised
  | System_stopped
  | Resuming_from_paused
  | Starting_exploration
  | Restarting_from_index_0
  | Paused_exploration
  | Resumed_exploration
  | Emergency_stop_triggered
  | Mc_stop_not_available
  | Issued_low_speed_hold
  | Fallback_hold_failed
  | Going_home
  | Cannot_jog
  | Cannot_read_coords
  | Jogging int int "real list"
  | Move_aborted
  | Exploration_finished
  | Moving_to "real list" nat
  | Could_not_read_final
  | Point_ok nat "real list" real
  | Point_fail nat "real list" real
  | No_results_to_export
  | Exported_log string
  | Failed_to_export
  | Cleared_log
  | Connected
  | Connect_failed
  | Skip_skipping nat
  | Skip_finished
  | Color_green nat
  | Reset_clearing
  | Reset_ready

text \<open>
  The text of a pose readout label: the initial \<open>"N/A"\<close>, or a number formatted with
  \<open>:.1f\<close>.
\<close>

datatype label = NA | One_decimal real

text \<open>
  An entry of \<open>self.results\<close>: the dict with keys target, reached, error, pass, timestamp.
\<close>

record visit =
  target :: "real list"
  reached :: "real list option"
  error :: "real option"
  pass :: bool
  timestamp :: string

text \<open>
  The callbacks handed to \<open>QTimer.singleShot\<close>, and the cells handed to \<open>csv.writer\<close>
  (\<open>None_cell\<close> is Python's \<open>None\<close>).
\<close>

datatype callback = Move_to_next_point

datatype step = Busy_set bool | Index_set nat | Timer_set nat callback

datatype cell = Text string | Number real | Boolean bool | None_cell

text \<open>
  The fields of the main window that its methods read or write. \<open>device\<close> and \<open>calls\<close>
  are the state of the device behind \<open>mc\<close> and the trace of calls made to it;
  \<open>mc = None\<close> is the handle recorded as absent. The cursor \<open>current_index\<close> starts at 0
  and is only incremented or reset to 0, so it is a natural number. \<open>pose_labels\<close> are the
  six labels x, y, z, r1, r2, r3 in this order, \<open>pause_btn\<close> the checked state of the
  pause button, \<open>single_shots\<close> the pending one-shot timers with their delay in ms, and
  \<open>files\<close> the CSV files written, as the rows passed to \<open>writerow\<close>. \<open>steps\<close> records,
  in program order, every assignment to \<open>robot_busy\<close> and to \<open>current_index\<close> and every
  call of \<open>QTimer.singleShot\<close> made after construction.
\<close>

record 'd gui =
  mc :: "'d mycobot option"
  device :: 'd
  calls :: "hwcall list"
  points :: "real list list"
  current_index :: nat
  robot_busy :: bool
  paused :: bool
  stopped :: bool
  canvas :: canvas
  pose_labels :: "label list"
  pause_btn :: bool
  speed_slider :: int
  status_box :: "msg list"
  console :: "msg list"
  results :: "visit list"
  single_shots :: "(nat \<times> callback) list"
  files :: "string \<rightharpoonup> cell list list"
  steps :: "step list"

definition print :: "msg \<Rightarrow> 'd gui \<Rightarrow> 'd gui" where
  "print m s = s\<lparr>console := console s @ [m]\<rparr>"

definition log :: "msg \<Rightarrow> 'd gui \<Rightarrow> 'd gui" where
  "log m s = s\<lparr>status_box := status_box s @ [m], console := console s @ [m]\<rparr>"

text \<open>
  The three recorded kinds of statement: \<open>self.robot_busy = b\<close>,
  \<open>self.current_index = n\<close> and \<open>QTimer.singleShot(delay, callback)\<close>.
\<close>

definition set_robot_busy :: "bool \<Rightarrow> 'd gui \<Rightarrow> 'd gui" where
  "set_robot_busy b s = s\<lparr>robot_busy := b, steps := steps s @ [Busy_set b]\<rparr>"

definition set_current_index :: "nat \<Rightarrow> 'd gui \<Rightarrow> 'd gui" where
  "set_current_index n s = s\<lparr>current_index := n, steps := steps s @ [Index_set n]\<rparr>"

definition singleShot :: "nat \<Rightarrow> callback \<Rightarrow> 'd gui \<Rightarrow> 'd gui" where
  "singleShot delay cb s =
     s\<lparr>single_shots := single_shots s @ [(delay, cb)], steps := steps s @ [Timer_set delay cb]\<rparr>"

text \<open>
  One call of a method of the handle: the device state advances and the call is recorded.
\<close>

definition call_hw :: "hwcall \<Rightarrow> ('d \<Rightarrow> 'a reply \<times> 'd) \<Rightarrow> 'd gui \<Rightarrow> 'a reply \<times> 'd gui" where
  "call_hw c f s = (case f (device s) of (r, d) \<Rightarrow> (r, s\<lparr>device := d, calls := calls s @ [c]\<rparr>))"

text \<open>
  The defensive wrappers. Each returns normally on every path: an absent handle and a
  raising call are both turned into a plain return value.
\<close>

definition safe_mc_send_coords :: "real list \<Rightarrow> int \<Rightarrow> 'd gui \<Rightarrow> 'd gui" where
  "safe_mc_send_coords coords speed s =
     (case mc s of
        None \<Rightarrow> log No_robot_connected s
      | Some m \<Rightarrow>
          (case call_hw (Send_coords coords speed 0) (send_coords m coords speed 0) s of
             (Returns _, s') \<Rightarrow> set_robot_busy True s'
           | (Raises, s') \<Rightarrow> set_robot_busy False (log Send_coords_failed s')))"

definition safe_mc_get_coords :: "'d gui \<Rightarrow> real list option \<times> 'd gui" where
  "safe_mc_get_coords s =
     (case mc s of
        None \<Rightarrow> (None, s)
      | Some m \<Rightarrow>
          (case call_hw Get_coords (get_coords m) s of
             (Returns coords, s') \<Rightarrow> (Some coords, s')
           | (Raises, s') \<Rightarrow> (None, s')))"

definition safe_mc_is_moving :: "'d gui \<Rightarrow> bool \<times> 'd gui" where
  "safe_mc_is_moving s =
     (case mc s of
        None \<Rightarrow> (False, s)
      | Some m \<Rightarrow>
          (case call_hw Is_moving (is_moving m) s of
             (Returns b, s') \<Rightarrow> (b, s')
           | (Raises, s') \<Rightarrow> (False, s')))"

definition attempt_stop_api :: "'d gui \<Rightarrow> bool \<times> 'd gui" where
  "attempt_stop_api s =
     (case mc s of
        None \<Rightarrow> (False, s)
      | Some m \<Rightarrow>
          (case stop m of
             None \<Rightarrow> (False, s)
           | Some f \<Rightarrow>
               (case call_hw Stop f s of
                  (Returns _, s') \<Rightarrow> (True, log Called_mc_stop s')
                | (Raises, s') \<Rightarrow> (False, log Mc_stop_raised s'))))"

text \<open>
  The methods below return the exception that escapes them, if any, and the state they
  leave. \<open>move_to_next_point\<close>, \<open>skip_point\<close>, \<open>color_current_point\<close>.
\<close>

definition move_to_next_point :: "'d gui \<Rightarrow> exn option \<times> 'd gui" where
  "move_to_next_point s =
     (if paused s \<or> stopped s then (None, log Move_aborted s)
      else if length (points s) \<le> current_index s then (None, log Exploration_finished s)
      else
        let target = points s ! current_index s;
            s1 = log (Moving_to target (current_index s)) s
        in case highlight_point (canvas s1) (int (current_index s1)) of
             (Some e, c) \<Rightarrow> (Some e, s1\<lparr>canvas := c\<rparr>)
           | (None, c) \<Rightarrow> (None, safe_mc_send_coords target (speed_slider s1) (s1\<lparr>canvas := c\<rparr>)))"

definition skip_point :: "'d gui \<Rightarrow> exn option \<times> 'd gui" where
  "skip_point s =
     (let s1 = print (Skip_skipping (current_index s)) s;
          s2 = set_current_index (current_index s1 + 1) s1
      in if current_index s2 < length (points s2) then move_to_next_point s2
         else (None, print Skip_finished s2))"

definition color_current_point :: "'d gui \<Rightarrow> exn option \<times> 'd gui" where
  "color_current_point s =
     (if current_index s < length (points s)
      then let s1 = print (Color_green (current_index s)) s
           in case update_point_color (canvas s1) (int (current_index s1)) green of
                (e, c) \<Rightarrow> (e, s1\<lparr>canvas := c\<rparr>)
      else (None, s))"

definition start_exploration :: "'d gui \<Rightarrow> exn option \<times> 'd gui" where
  "start_exploration s =
     (if stopped s then (None, log System_stopped s)
      else
        let s1 = (if paused s then (log Resuming_from_paused s)\<lparr>paused := False, pause_btn := False\<rparr>
                  else s);
            s2 = log Starting_exploration s1;
            s3 = (if length (points s2) \<le> current_index s2
                  then log Restarting_from_index_0 (set_current_index 0 s2) else s2)
        in case highlight_point (canvas s3) (int (current_index s3)) of
             (Some e, c) \<Rightarrow> (Some e, s3\<lparr>canvas := c\<rparr>)
           | (None, c) \<Rightarrow> move_to_next_point (s3\<lparr>canvas := c\<rparr>))"

definition toggle_pause :: "'d gui \<Rightarrow> exn option \<times> 'd gui" where
  "toggle_pause s =
     (let s1 = s\<lparr>paused := pause_btn s\<rparr>
      in if paused s1 then (None, log Paused_exploration s1)
         else let s2 = log Resumed_exploration s1
              in if \<not> robot_busy s2 then move_to_next_point s2 else (None, s2))"

text \<open>
  \<open>emergency_stop\<close>: every hardware call in it is guarded, so it always returns normally.
  The fallback \<open>self.mc.send_coords\<close> sits in a \<open>try\<close>, so an absent handle there would be
  caught as well.
\<close>

definition emergency_stop :: "'d gui \<Rightarrow> 'd gui" where
  "emergency_stop s =
     (let s1 = log Emergency_stop_triggered (s\<lparr>stopped := True, paused := True, pause_btn := True\<rparr>)
      in case attempt_stop_api s1 of
           (True, s2) \<Rightarrow> s2
         | (False, s2) \<Rightarrow>
             (case safe_mc_get_coords (log Mc_stop_not_available s2) of
                (Some (c # cs), s3) \<Rightarrow>
                  (case mc s3 of
                     None \<Rightarrow> log Fallback_hold_failed s3
                   | Some m \<Rightarrow>
                       (case call_hw (Send_coords (c # cs) 1 0) (send_coords m (c # cs) 1 0) s3 of
                          (Returns _, s4) \<Rightarrow> log Issued_low_speed_hold s4
                        | (Raises, s4) \<Rightarrow> log Fallback_hold_failed s4))
              | (_, s3) \<Rightarrow> s3))"

text \<open>
  \<open>go_home\<close> and \<open>clear_stop\<close> call \<open>self.mc.send_angles\<close> and
  \<open>self.mc.release_all_servos\<close> with no guard and no \<open>try\<close>: on an absent handle the
  attribute lookup on \<open>None\<close> raises AttributeError, and an exception of the library
  escapes. \<open>time.sleep(0.5)\<close> changes no state.
\<close>

definition go_home :: "'d gui \<Rightarrow> exn option \<times> 'd gui" where
  "go_home s =
     (let s1 = log Going_home s
      in case mc s1 of
           None \<Rightarrow> (Some AttributeError, s1)
         | Some m \<Rightarrow>
             (case call_hw (Send_angles [0, 0, 0, 0, 0, 0] 10) (send_angles m [0, 0, 0, 0, 0, 0] 10) s1 of
                (Returns _, s2) \<Rightarrow> (None, s2)
              | (Raises, s2) \<Rightarrow> (Some HardwareError, s2)))"

definition clear_stop :: "'d gui \<Rightarrow> exn option \<times> 'd gui" where
  "clear_stop s =
     (if stopped s
      then let s1 = (print Reset_clearing s)\<lparr>stopped := False\<rparr>
           in case mc s1 of
                None \<Rightarrow> (Some AttributeError, s1)
              | Some m \<Rightarrow>
                  (case call_hw Release_all_servos (release_all_servos m) s1 of
                     (Raises, s2) \<Rightarrow> (Some HardwareError, s2)
                   | (Returns _, s2) \<Rightarrow>
                       (case go_home s2 of
                          (Some e, s3) \<Rightarrow> (Some e, s3)
                        | (None, s3) \<Rightarrow> (None, print Reset_ready s3)))
      else (None, s))"

text \<open>
  \<open>jog_axis(axis_index, delta)\<close>: \<open>new_coords[axis_index] += delta\<close> raises IndexError on
  a coordinate list that is too short, and is a float addition otherwise.
\<close>

definition jog_axis :: "int \<Rightarrow> int \<Rightarrow> 'd gui \<Rightarrow> exn option \<times> 'd gui" where
  "jog_axis axis_index delta s =
     (if paused s \<or> stopped s then (None, log Cannot_jog s)
      else case safe_mc_get_coords s of
             (None, s1) \<Rightarrow> (None, log Cannot_read_coords s1)
           | (Some coords, s1) \<Rightarrow>
               if axis_index \<in> set [0, 1, 2] \<and> length coords \<le> nat axis_index
               then (Some IndexError, s1)
               else
                 let new_coords =
                       (if axis_index \<in> set [0, 1, 2]
                        then coords[nat axis_index := fadd (coords ! nat axis_index) (of_int delta)]
                        else coords);
                     s2 = log (Jogging axis_index delta (take 3 new_coords)) s1
                 in (None, safe_mc_send_coords new_coords (speed_slider s2) s2))"

text \<open>
  The first block of \<open>check_robot_status\<close> (live pose): the labels are set one after the
  other inside a \<open>try\<close> whose \<open>except\<close> passes, so a short coordinate list updates the
  labels it has values for.
\<close>

fun set_labels :: "real list \<Rightarrow> label list \<Rightarrow> label list" where
  "set_labels (c # cs) (l # ls) = One_decimal c # set_labels cs ls"
| "set_labels cs ls = ls"

definition update_live_pose :: "'d gui \<Rightarrow> 'd gui" where
  "update_live_pose s =
     (case safe_mc_get_coords s of
        (Some (c # cs), s1) \<Rightarrow> s1\<lparr>pose_labels := set_labels (c # cs) (pose_labels s1)\<rparr>
      | (_, s1) \<Rightarrow> s1)"

text \<open>
  The error metric of the evaluation, \<open>abs(final[0] - target[0]) + abs(final[1] - target[1])
  + abs(final[2] - target[2])\<close>, used once both lists have three components: three float
  subtractions, then two float additions from left to right.
\<close>

definition position_error :: "real list \<Rightarrow> real list \<Rightarrow> real" where
  "position_error final tgt =
     fadd (fadd \<bar>fsub (final ! 0) (tgt ! 0)\<bar> \<bar>fsub (final ! 1) (tgt ! 1)\<bar>)
          \<bar>fsub (final ! 2) (tgt ! 2)\<bar>"

text \<open>
  The end of an evaluation: \<open>robot_busy\<close> is cleared and the cursor advanced, then, if
  neither paused nor stopped, \<open>QTimer.singleShot(250, self.move_to_next_point)\<close>.
\<close>

definition finish_point :: "'d gui \<Rightarrow> 'd gui" where
  "finish_point s =
     (let s1 = set_robot_busy False s;
          s2 = set_current_index (current_index s1 + 1) s1
      in if \<not> paused s2 \<and> \<not> stopped s2
         then singleShot 250 Move_to_next_point s2
         else s2)"

text \<open>
  The block under \<open>if self.robot_busy:\<close> in \<open>check_robot_status\<close>. \<open>now\<close> is the string
  that \<open>datetime.utcnow().isoformat()\<close> returns. Indexing \<open>final\<close> or \<open>target\<close> past its end
  raises IndexError.
\<close>

definition evaluate_point :: "string \<Rightarrow> 'd gui \<Rightarrow> exn option \<times> 'd gui" where
  "evaluate_point now s =
     (case safe_mc_get_coords s of (final, s1) \<Rightarrow>
        if length (points s1) \<le> current_index s1 then (Some IndexError, s1)
        else
          let tgt = points s1 ! current_index s1 in
          case final of
            None \<Rightarrow>
              (let s2 = log Could_not_read_final s1
               in case update_point_color (canvas s2) (int (current_index s2)) gray of
                    (Some e, c) \<Rightarrow> (Some e, s2\<lparr>canvas := c\<rparr>)
                  | (None, c) \<Rightarrow>
                      (None, finish_point (s2\<lparr>canvas := c, results := results s2 @
                         [\<lparr>target = tgt, reached = None, error = None, pass = False,
                           timestamp = now\<rparr>]\<rparr>)))
          | Some fin \<Rightarrow>
              if length fin < 3 \<or> length tgt < 3 then (Some IndexError, s1)
              else
                let err = position_error fin tgt;
                    color = (if err < 10 then white else red);
                    passed = (if err < 10 then True else False);
                    s2 = log (if err < 10 then Point_ok (current_index s1) (take 3 fin) err
                              else Point_fail (current_index s1) (take 3 fin) err) s1
                in case update_point_color (canvas s2) (int (current_index s2)) color of
                     (Some e, c) \<Rightarrow> (Some e, s2\<lparr>canvas := c\<rparr>)
                   | (None, c) \<Rightarrow>
                       (None, finish_point (s2\<lparr>canvas := c, results := results s2 @
                          [\<lparr>target = tgt, reached = Some fin, error = Some err, pass = passed,
                            timestamp = now\<rparr>]\<rparr>)))"

text \<open>
  \<open>check_robot_status\<close>, the slot of the 200 ms timer.
\<close>

definition check_robot_status :: "string \<Rightarrow> 'd gui \<Rightarrow> exn option \<times> 'd gui" where
  "check_robot_status now s =
     (let s1 = update_live_pose s
      in if length (points s1) \<le> current_index s1 \<or> paused s1 \<or> stopped s1 then (None, s1)
         else case safe_mc_is_moving s1 of
                (True, s2) \<Rightarrow> (None, s2)
              | (False, s2) \<Rightarrow> if robot_busy s2 then evaluate_point now s2 else (None, s2))"

text \<open>
  \<open>export_log\<close>. \<open>stamp\<close> is the formatted local time of the file name. \<open>io\<close> says which
  file operation fails, if any: \<open>Some 0\<close> is \<open>open\<close>, \<open>Some k\<close> the k-th \<open>writerow\<close>.
  A row is built before it is written; \<open>r['reached'] or [None] * 6\<close> replaces an absent or
  empty list, and indexing a list of fewer than six components raises IndexError. The
  whole writing sits in a \<open>try\<close>, so \<open>export_log\<close> always returns normally.
\<close>

definition header :: "cell list" where
  "header = map Text [''timestamp'', ''target_x'', ''target_y'', ''target_z'', ''target_r1'',
     ''target_r2'', ''target_r3'', ''reached_x'', ''reached_y'', ''reached_z'', ''reached_r1'',
     ''reached_r2'', ''reached_r3'', ''error'', ''pass'']"

definition export_row :: "visit \<Rightarrow> exn + cell list" where
  "export_row r =
     (let tgt = target r;
          rch = (case reached r of
                   None \<Rightarrow> replicate 6 None_cell
                 | Some [] \<Rightarrow> replicate 6 None_cell
                 | Some (c # cs) \<Rightarrow> map Number (c # cs))
      in if length tgt < 6 \<or> length rch < 6 then Inl IndexError
         else Inr ([Text (timestamp r)] @ map Number (take 6 tgt) @ take 6 rch @
                   [case error r of None \<Rightarrow> None_cell | Some e \<Rightarrow> Number e, Boolean (pass r)]))"

fun write_rows ::
  "nat option \<Rightarrow> nat \<Rightarrow> (exn + cell list) list \<Rightarrow> cell list list \<Rightarrow> exn option \<times> cell list list" where
  "write_rows io k [] out = (None, out)"
| "write_rows io k (Inl e # rows) out = (Some e, out)"
| "write_rows io k (Inr row # rows) out =
     (if io = Some k then (Some OSError, out) else write_rows io (k + 1) rows (out @ [row]))"

definition export_log :: "string \<Rightarrow> nat option \<Rightarrow> 'd gui \<Rightarrow> 'd gui" where
  "export_log stamp io s =
     (if length (results s) = 0 then log No_results_to_export s
      else
        let fname = ''workspace_log_'' @ stamp @ ''.csv''
        in if io = Some 0 then log Failed_to_export s
           else case write_rows io 1 (Inr header # map export_row (results s)) [] of
                  (None, out) \<Rightarrow> log (Exported_log fname) (s\<lparr>files := (files s)(fname \<mapsto> out)\<rparr>)
                | (Some e, out) \<Rightarrow> log Failed_to_export (s\<lparr>files := (files s)(fname \<mapsto> out)\<rparr>))"

definition clear_log :: "'d gui \<Rightarrow> 'd gui" where
  "clear_log s = log Cleared_log (s\<lparr>results := []\<rparr>)"

text \<open>
  \<open>WorkspaceGUI.__init__\<close>. \<open>connection\<close> is the handle that \<open>MyCobot(PI_PORT, PI_BAUD)\<close>
  returned, or \<open>None\<close> when it raised.
\<close>

definition WorkspaceGUI :: "'d mycobot option \<Rightarrow> 'd \<Rightarrow> exn + 'd gui" where
  "WorkspaceGUI connection d =
     (case generate_grid_points_default of
        Inl e \<Rightarrow> Inl e
      | Inr pts \<Rightarrow>
          (case MplCanvas pts of
             Inl e \<Rightarrow> Inl e
           | Inr cv \<Rightarrow>
               let s = \<lparr>mc = connection, device = d, calls = [], points = pts, current_index = 0,
                        robot_busy = False, paused = False, stopped = False, canvas = cv,
                        pose_labels = replicate 6 NA, pause_btn = False, speed_slider = 10,
                        status_box = [],
                        console = [case connection of None \<Rightarrow> Connect_failed
                                   | Some _ \<Rightarrow> Connected],
                        results = [], single_shots = [], files = Map.empty, steps = []\<rparr>
               in if 0 < length (points s)
                  then (case highlight_point (canvas s) (int (current_index s)) of
                          (Some e, c) \<Rightarrow> Inl e
                        | (None, c) \<Rightarrow> Inr (s\<lparr>canvas := c\<rparr>))
                  else Inr s))"

text \<open>
  The events the Qt event loop delivers to the window, and the slot each one runs. A click
  on the checkable pause button flips its checked state before the slot reads it.
  \<open>Single_shot\<close> is the oldest pending one-shot timer firing.
\<close>

datatype action =
    Click_start
  | Click_pause
  | Click_stop
  | Click_skip
  | Click_color
  | Click_reset
  | Click_home
  | Click_jog int int
  | Move_slider int
  | Click_export string "nat option"
  | Click_clear_log
  | Timer_tick string
  | Single_shot

definition perform :: "action \<Rightarrow> 'd gui \<Rightarrow> exn option \<times> 'd gui" where
  "perform a s =
     (case a of
        Click_start \<Rightarrow> start_exploration s
      | Click_pause \<Rightarrow> toggle_pause (s\<lparr>pause_btn := \<not> pause_btn s\<rparr>)
      | Click_stop \<Rightarrow> (None, emergency_stop s)
      | Click_skip \<Rightarrow> skip_point s
      | Click_color \<Rightarrow> color_current_point s
      | Click_reset \<Rightarrow> clear_stop s
      | Click_home \<Rightarrow> go_home s
      | Click_jog axis_index delta \<Rightarrow> jog_axis axis_index delta s
      | Move_slider v \<Rightarrow> (None, s\<lparr>speed_slider := v\<rparr>)
      | Click_export stamp io \<Rightarrow> (None, export_log stamp io s)
      | Click_clear_log \<Rightarrow> (None, clear_log s)
      | Timer_tick now \<Rightarrow> check_robot_status now s
      | Single_shot \<Rightarrow>
          (case single_shots s of
             [] \<Rightarrow> (None, s)
           | (delay, Move_to_next_point) # rest \<Rightarrow> move_to_next_point (s\<lparr>single_shots := rest\<rparr>)))"

text \<open>
  A small concrete window for evaluating the model: a robot whose calls all succeed, that
  reports the pose (5, 5, 100, 180, 0, 0), is not moving and has no \<open>stop\<close>; and a window
  over two poses in the state \<open>__init__\<close> leaves (first marker highlighted).
\<close>

definition demo_robot :: "unit mycobot" where
  "demo_robot =
     \<lparr>send_coords = (\<lambda>coords speed mode d. (Returns (), d)),
      get_coords = (\<lambda>d. (Returns [5, 5, 100, 180, 0, 0], d)),
      is_moving = (\<lambda>d. (Returns False, d)),
      stop = None,
      send_angles = (\<lambda>angles speed d. (Returns (), d)),
      release_all_servos = (\<lambda>d. (Returns (), d))\<rparr>"

definition demo_gui :: "unit gui" where
  "demo_gui =
     \<lparr>mc = Some demo_robot, device = (), calls = [],
      points = [[0, 0, 100, 180, 0, 0], [50, 0, 100, 180, 0, 0]], current_index = 0,
      robot_busy = False, paused = False, stopped = False,
      canvas = \<lparr>cpoints = [[0, 0, 100, 180, 0, 0], [50, 0, 100, 180, 0, 0]],
                 colors = [yellow, blue], scatter = True\<rparr>,
      pose_labels = [NA, NA, NA, NA, NA, NA], pause_btn = False, speed_slider = 10,
      status_box = [], console = [Connected], results = [], single_shots = [],
      files = Map.empty, steps = []\<rparr>"

text \<open>
  A recorded result as the data model describes it: the target is a pose of six
  components and the reached pose is absent or has six components.
\<close>

definition six_components :: "visit \<Rightarrow> bool" where
  "six_components r =
     (length (target r) = 6 \<and> (case reached r of None \<Rightarrow> True | Some p \<Rightarrow> length p = 6))"

text \<open>The thirteen values of \<open>range(-300, 300 + 1, 50)\<close>, for stating results.\<close>

definition default_axis_values :: "int list" where
  "default_axis_values = [- 300, - 250, - 200, - 150, - 100, - 50, 0, 50, 100, 150, 200, 250, 300]"

section \<open>Float arithmetic on integers\<close>

lemma round_half_even_int: "round_half_even (of_int n) = n"
  by (simp add: round_half_even_def)

lemma fl64_of_int:
  assumes "\<bar>n\<bar> < 2 ^ 53"
  shows "fl64 (of_int n) = of_int n"
proof (cases "n = 0")
  case True
  then show ?thesis by (simp add: fl64_def)
next
  case False
  let ?a = "\<bar>real_of_int n\<bar>"
  let ?e = "\<lfloor>Transcendental.log 2 ?a\<rfloor>"
  have a1: "1 \<le> ?a" using False by (simp add: abs_if)
  have a2: "?a < 2 ^ 53" using assms
    by (metis of_int_abs of_int_less_numeral_power_cancel_iff)
  have e0: "0 \<le> ?e" using a1 by simp
  have "Transcendental.log 2 ?a < 53"
  proof -
    have "Transcendental.log 2 ?a < Transcendental.log 2 (2 ^ 53)" using a1 a2 by (intro log_less) simp_all
    moreover have "Transcendental.log 2 ((2::real) ^ 53) = 53"
      using log_pow_cancel[of "2::real" 53] by simp
    ultimately show ?thesis by simp
  qed
  then have e1: "?e \<le> 52" by linarith
  define k where "k = nat (52 - ?e)"
  have kk: "real_of_int ?e - 52 = - real k" using e1 by (simp add: k_def)
  have mx: "max ?e (- 1022) = ?e" using e0 by simp
  have ulp: "2 powr (real_of_int ?e - 52) = 1 / 2 ^ k"
    unfolding kk by (simp add: powr_minus powr_realpow divide_inverse)
  have q: "real_of_int n / (1 / 2 ^ k) = real_of_int (n * 2 ^ k)" by simp
  have "fl64 (of_int n) = of_int (round_half_even (real_of_int n / (1 / 2 ^ k))) * (1 / 2 ^ k)"
    using False by (simp add: fl64_def Let_def mx ulp del: of_int_mult of_int_power)
  also have "\<dots> = of_int (n * 2 ^ k) * (1 / 2 ^ k)"
    unfolding q round_half_even_int ..
  also have "\<dots> = of_int n" by simp
  finally show ?thesis .
qed

lemma fl64_numeral_small [simp]:
  "fl64 0 = 0" "fl64 3 = 3" "fl64 5 = 5" "fl64 6 = 6" "fl64 10 = 10" "fl64 100 = 100"
  using fl64_of_int[of 0] fl64_of_int[of 3] fl64_of_int[of 5] fl64_of_int[of 6] fl64_of_int[of 10]
    fl64_of_int[of 100]
  by simp_all

lemma fsub_int:
  assumes "\<bar>a\<bar> < 2 ^ 53" "\<bar>b\<bar> < 2 ^ 53" "\<bar>a - b\<bar> < 2 ^ 53"
  shows "fsub (of_int a) (of_int b) = of_int (a - b)"
  using fl64_of_int[OF assms(3)] by (simp add: fsub_def fl64_of_int[OF assms(1)] fl64_of_int[OF assms(2)])

lemma fadd_int:
  assumes "\<bar>a\<bar> < 2 ^ 53" "\<bar>b\<bar> < 2 ^ 53" "\<bar>a + b\<bar> < 2 ^ 53"
  shows "fadd (of_int a) (of_int b) = of_int (a + b)"
  using fl64_of_int[OF assms(3)] by (simp add: fadd_def fl64_of_int[OF assms(1)] fl64_of_int[OF assms(2)])

lemma position_error_int:
  assumes "\<bar>a\<bar> \<le> 2 ^ 50" "\<bar>b\<bar> \<le> 2 ^ 50" "\<bar>c\<bar> \<le> 2 ^ 50"
    and "\<bar>ta\<bar> \<le> 2 ^ 50" "\<bar>tb\<bar> \<le> 2 ^ 50" "\<bar>tc\<bar> \<le> 2 ^ 50"
  shows "position_error (of_int a # of_int b # of_int c # f_rest) (of_int ta # of_int tb # of_int tc # t_rest)
       = of_int (\<bar>a - ta\<bar> + \<bar>b - tb\<bar> + \<bar>c - tc\<bar>)"
proof -
  have s1: "fsub (of_int a) (of_int ta) = of_int (a - ta)"
    using assms by (intro fsub_int) (auto simp: abs_if split: if_splits)
  have s2: "fsub (of_int b) (of_int tb) = of_int (b - tb)"
    using assms by (intro fsub_int) (auto simp: abs_if split: if_splits)
  have s3: "fsub (of_int c) (of_int tc) = of_int (c - tc)"
    using assms by (intro fsub_int) (auto simp: abs_if split: if_splits)
  have s4: "fadd (of_int \<bar>a - ta\<bar>) (of_int \<bar>b - tb\<bar>) = of_int (\<bar>a - ta\<bar> + \<bar>b - tb\<bar>)"
    using assms by (intro fadd_int) (auto simp: abs_if split: if_splits)
  have s5: "fadd (of_int (\<bar>a - ta\<bar> + \<bar>b - tb\<bar>)) (of_int \<bar>c - tc\<bar>)
      = of_int (\<bar>a - ta\<bar> + \<bar>b - tb\<bar> + \<bar>c - tc\<bar>)"
    using assms by (intro fadd_int) (auto simp: abs_if split: if_splits)
  have "position_error (of_int a # of_int b # of_int c # f_rest) (of_int ta # of_int tb # of_int tc # t_rest)
      = fadd (fadd \<bar>fsub (of_int a) (of_int ta)\<bar> \<bar>fsub (of_int b) (of_int tb)\<bar>)
             \<bar>fsub (of_int c) (of_int tc)\<bar>"
    by (simp add: position_error_def)
  also have "\<dots> = fadd (fadd (of_int \<bar>a - ta\<bar>) (of_int \<bar>b - tb\<bar>)) (of_int \<bar>c - tc\<bar>)"
    unfolding s1 s2 s3 by (simp only: of_int_abs)
  also have "\<dots> = of_int (\<bar>a - ta\<bar> + \<bar>b - tb\<bar> + \<bar>c - tc\<bar>)"
    unfolding s4 s5 ..
  finally show ?thesis .
qed

section \<open>Properties of the rectangular grid generator\<close>

lemma default_axis:
  "py_range (- 300) (300 + 1) 50 =
     Inr [- 300, - 250, - 200, - 150, - 100, - 50, 0, 50, 100, 150, 200, 250, 300]"
  by (simp add: py_range_def range_len_def upt_rec)

lemma for_each_total:
  "for_each xs (\<lambda>x. Inr (f x)) = Inr (concat (map f xs))"
  by (induction xs) simp_all

lemma default_grid:
  "generate_grid_points_default =
     Inr (concat (map (\<lambda>z. concat (map (\<lambda>x. map (\<lambda>y. [of_int x, of_int y, z, 180, 0, 0])
            default_axis_values) default_axis_values)) [40, 50, 100, 200]))"
  unfolding generate_grid_points_default_def generate_grid_points_def fst_conv snd_conv default_axis
    default_axis_values_def
  by (simp only: sum.case for_each_total)

lemma length_concat_uniform:
  "(\<And>x. x \<in> set xs \<Longrightarrow> length (f x) = m) \<Longrightarrow> length (concat (map f xs)) = length xs * m"
  by (induction xs) simp_all

lemma list_all_concat_map:
  "(\<And>x. x \<in> set xs \<Longrightarrow> list_all P (f x)) \<Longrightarrow> list_all P (concat (map f xs))"
  by (induction xs) simp_all

lemma nth_concat_uniform:
  "(\<And>x. x \<in> set xs \<Longrightarrow> length (f x) = m) \<Longrightarrow> i < length xs \<Longrightarrow> j < m \<Longrightarrow>
   concat (map f xs) ! (i * m + j) = f (xs ! i) ! j"
proof (induction xs arbitrary: i)
  case Nil
  then show ?case by simp
next
  case (Cons x xs)
  have lx: "length (f x) = m" using Cons.prems(1) by simp
  show ?case
  proof (cases i)
    case 0
    then show ?thesis using lx Cons.prems(3) by (simp add: nth_append)
  next
    case (Suc k)
    have "concat (map f xs) ! (k * m + j) = f (xs ! k) ! j"
      using Cons.IH[of k] Cons.prems Suc by simp
    then show ?thesis using lx Suc by (simp add: nth_append)
  qed
qed

lemma plane_length:
  "length (concat (map (\<lambda>x. map (\<lambda>y. [of_int x, of_int y, z, 180, 0, 0::real])
            default_axis_values) default_axis_values)) = 169"
  using length_concat_uniform[of default_axis_values "\<lambda>x. map (\<lambda>y. [of_int x, of_int y, z, 180, 0, 0::real])
            default_axis_values" 13]
  by (simp add: default_axis_values_def)

lemma grid_nth:
  assumes "iz < 4" "ix < 13" "iy < 13"
  shows "concat (map (\<lambda>z. concat (map (\<lambda>x. map (\<lambda>y. [of_int x, of_int y, z, 180, 0, 0::real])
            default_axis_values) default_axis_values)) [40, 50, 100, 200]) ! (iz * 169 + (ix * 13 + iy))
         = [of_int (default_axis_values ! ix), of_int (default_axis_values ! iy), [40, 50, 100, 200] ! iz, 180, 0, 0]"
proof -
  have la: "length default_axis_values = 13" by (simp add: default_axis_values_def)
  have lt: "ix * 13 + iy < 169" using assms by simp
  have "concat (map (\<lambda>z. concat (map (\<lambda>x. map (\<lambda>y. [of_int x, of_int y, z, 180, 0, 0::real])
            default_axis_values) default_axis_values)) [40, 50, 100, 200]) ! (iz * 169 + (ix * 13 + iy))
      = concat (map (\<lambda>x. map (\<lambda>y. [of_int x, of_int y, [40, 50, 100, 200::real] ! iz, 180, 0, 0::real])
            default_axis_values) default_axis_values) ! (ix * 13 + iy)"
    using assms(1) lt by (subst nth_concat_uniform[where m = 169]) (simp_all add: plane_length)
  also have "\<dots> = map (\<lambda>y. [of_int (default_axis_values ! ix), of_int y, [40, 50, 100, 200::real] ! iz, 180, 0, 0::real])
            default_axis_values ! iy"
    using assms la by (subst nth_concat_uniform[where m = 13]) simp_all
  also have "\<dots> = [of_int (default_axis_values ! ix), of_int (default_axis_values ! iy), [40, 50, 100, 200] ! iz, 180, 0, 0]"
    using assms la by simp
  finally show ?thesis .
qed

text \<open>
  Claim C6. With every parameter at its default the rectangular generator returns
  normally with exactly 676 poses, each ending in the orientation (180, 0, 0); the
  list is the nested comprehension with Z outermost in the given order, then X ascending,
  then Y ascending, both endpoints -300 and 300 included and nothing filtered out.
  The poses at indices 0, 1, 13, 169 and 675 show the order concretely.
\<close>

theorem generate_grid_points_default_poses:
  "\<exists>ps. generate_grid_points_default = Inr ps
      \<and> length ps = 676 
      \<and> list_all (\<lambda>p. drop 3 p = [180, 0, 0]) ps
      \<and> ps = concat (map (\<lambda>z. concat (map (\<lambda>x. map (\<lambda>y. [of_int x, of_int y, z, 180, 0, 0])
            [- 300, - 250, - 200, - 150, - 100, - 50, 0, 50, 100, 150, 200, 250, 300])
            [- 300, - 250, - 200, - 150, - 100, - 50, 0, 50, 100, 150, 200, 250, 300]))
            [40, 50, 100, 200])
      \<and> ps ! 0 = [- 300, - 300, 40, 180, 0, 0]
      \<and> ps ! 1 = [- 300, - 250, 40, 180, 0, 0]
      \<and> ps ! 13 = [- 250, - 300, 40, 180, 0, 0]
      \<and> ps ! 169 = [- 300, - 300, 50, 180, 0, 0]
      \<and> ps ! 675 = [300, 300, 200, 180, 0, 0]"
proof -
  let ?ps = "concat (map (\<lambda>z. concat (map (\<lambda>x. map (\<lambda>y. [of_int x, of_int y, z, 180, 0, 0::real])
            default_axis_values) default_axis_values)) [40, 50, 100, 200])"
  have len: "length ?ps = 676"
    using length_concat_uniform[of "[40, 50, 100, 200::real]" "\<lambda>z. concat (map (\<lambda>x. map (\<lambda>y. [of_int x, of_int y, z, 180, 0, 0::real])
            default_axis_values) default_axis_values)" 169]
    by (simp add: plane_length)
  have ori: "list_all (\<lambda>p. drop 3 p = [180, 0, 0]) ?ps"
    by (intro list_all_concat_map) (simp add: list_all_iff)
  have n0: "?ps ! 0 = [- 300, - 300, 40, 180, 0, 0]"
    using grid_nth[of 0 0 0] by (simp add: default_axis_values_def)
  have n1: "?ps ! 1 = [- 300, - 250, 40, 180, 0, 0]"
    using grid_nth[of 0 0 1] by (simp add: default_axis_values_def)
  have n13: "?ps ! 13 = [- 250, - 300, 40, 180, 0, 0]"
    using grid_nth[of 0 1 0] by (simp add: default_axis_values_def)
  have n169: "?ps ! 169 = [- 300, - 300, 50, 180, 0, 0]"
    using grid_nth[of 1 0 0] by (simp add: default_axis_values_def)
  have n675: "?ps ! 675 = [300, 300, 200, 180, 0, 0]"
    using grid_nth[of 3 12 12] by (simp add: default_axis_values_def)
  have eq: "?ps = concat (map (\<lambda>z. concat (map (\<lambda>x. map (\<lambda>y. [of_int x, of_int y, z, 180, 0, 0])
            [- 300, - 250, - 200, - 150, - 100, - 50, 0, 50, 100, 150, 200, 250, 300])
            [- 300, - 250, - 200, - 150, - 100, - 50, 0, 50, 100, 150, 200, 250, 300]))
            [40, 50, 100, 200])"
    unfolding default_axis_values_def ..
  show ?thesis
    unfolding default_grid
    apply (rule exI[of _ ?ps])
    apply (intro conjI)
    apply (rule refl)
    apply (rule len)
    apply (rule ori)
    apply (rule eq)
    apply (rule n0)
    apply (rule n1)
    apply (rule n13)
    apply (rule n169)
    apply (rule n675)
    done
qed

section \<open>Properties of the canvas\<close>

lemma reset_unvisited_upt:
  "length cols = n \<Longrightarrow> i \<le> n \<Longrightarrow>
   reset_unvisited [i..<n] cols =
     (None, take i cols @ map (\<lambda>k. if k = white \<or> k = red then k else blue) (drop i cols))"
proof (induction "n - i" arbitrary: i cols)
  case 0
  then show ?case by simp
next
  case (Suc d)
  then have lt: "i < n" and d: "d = n - Suc i" by auto
  have upt: "[i..<n] = i # [Suc i..<n]" using lt by (simp add: upt_conv_Cons)
  have dr: "drop i cols = cols ! i # drop (Suc i) cols"
    using lt Suc.prems(1) by (simp add: Cons_nth_drop_Suc)
  show ?case
  proof (cases "cols ! i = white \<or> cols ! i = red")
    case True
    have "reset_unvisited [i..<n] cols = reset_unvisited [Suc i..<n] cols"
      using True lt Suc.prems(1) upt by auto
    also have "\<dots> = (None, take (Suc i) cols @ map (\<lambda>k. if k = white \<or> k = red then k else blue) (drop (Suc i) cols))"
      using Suc.hyps(1)[OF d Suc.prems(1)] lt by simp
    finally show ?thesis using True dr lt Suc.prems(1) by (simp add: take_Suc_conv_app_nth)
  next
    case False
    have "reset_unvisited [i..<n] cols = reset_unvisited [Suc i..<n] (cols[i := blue])"
      using False lt Suc.prems(1) upt by auto
    also have "\<dots> = (None, take (Suc i) (cols[i := blue]) @ map (\<lambda>k. if k = white \<or> k = red then k else blue) (drop (Suc i) (cols[i := blue])))"
      using Suc.hyps(1)[OF d, of "cols[i := blue]"] Suc.prems(1) lt by simp
    finally show ?thesis using False dr lt Suc.prems(1) by (simp add: take_Suc_conv_app_nth)
  qed
qed

lemma reset_unvisited_all:
  "length cols = n \<Longrightarrow>
   reset_unvisited [0..<n] cols = (None, map (\<lambda>k. if k = white \<or> k = red then k else blue) cols)"
  using reset_unvisited_upt[of cols n 0] by simp

lemma valid_named_colors:
  "valid_color blue" "valid_color white" "valid_color red" "valid_color yellow"
  "valid_color gray" "valid_color green"
  by (simp_all add: valid_color_def blue_def white_def red_def yellow_def gray_def green_def)

lemma redraw_fields [simp]:
  "cpoints (snd (redraw c)) = cpoints c" "colors (snd (redraw c)) = colors c"
  by (simp_all add: redraw_def split: option.splits)

lemma redraw_drawable:
  "drawable c \<Longrightarrow> redraw c = (None, c)"
  by (simp add: redraw_def drawable_def ax_scatter_def)

lemma update_point_color_fields [simp]:
  "cpoints (snd (update_point_color c i col)) = cpoints c"
  "length (colors (snd (update_point_color c i col))) = length (colors c)"
  by (simp_all add: update_point_color_def)

lemma highlight_point_fields:
  assumes "length (colors c) = length (cpoints c)"
  shows "cpoints (snd (highlight_point c i)) = cpoints c"
    and "length (colors (snd (highlight_point c i))) = length (colors c)"
  using assms by (simp_all add: highlight_point_def reset_unvisited_all)

lemma canvas_call_inv:
  assumes "length (colors c) = length (cpoints c)"
  shows "cpoints (snd (canvas_call c op)) = cpoints c
       \<and> length (colors (snd (canvas_call c op))) = length (cpoints c)"
  using assms highlight_point_fields[OF assms] by (cases op) simp_all

lemma canvas_calls_inv:
  "length (colors c) = length (cpoints c) \<Longrightarrow>
   cpoints (canvas_calls c ops) = cpoints c \<and> length (colors (canvas_calls c ops)) = length (cpoints c)"
proof (induction ops arbitrary: c)
  case Nil
  then show ?case by simp
next
  case (Cons op ops)
  have c1: "cpoints (snd (canvas_call c op)) = cpoints c"
    "length (colors (snd (canvas_call c op))) = length (cpoints (snd (canvas_call c op)))"
    using canvas_call_inv[OF Cons.prems, of op] by simp_all
  from Cons.IH[OF c1(2)] c1(1) show ?case by simp
qed

lemma MplCanvas_constructed:
  "MplCanvas pts = Inr c \<Longrightarrow>
   c = \<lparr>cpoints = pts, colors = replicate (length pts) blue, scatter = True\<rparr> \<and> drawable c"
  by (auto simp: MplCanvas_def drawable_def ax_scatter_def valid_named_colors list_all_iff
           split: option.splits if_splits)

lemma reset_colors_valid:
  "list_all valid_color (map (\<lambda>k. if k = white \<or> k = red then k else blue) cols)"
  by (induction cols) (simp_all add: valid_named_colors)

text \<open>
  Claim C10. On a canvas that construction returned, after any sequence of
  \<open>update_point_color\<close> and \<open>highlight_point\<close> calls, with any indices and colours,
  whichever of the calls raised, the point list is the one given to the constructor and
  the colour array has exactly one entry per pose.
\<close>

theorem canvas_colors_length:
  assumes "MplCanvas pts = Inr c"
  shows "cpoints (canvas_calls c ops) = pts
       \<and> length (colors (canvas_calls c ops)) = length (cpoints (canvas_calls c ops))"
proof -
  have c: "cpoints c = pts" "length (colors c) = length (cpoints c)"
    using MplCanvas_constructed[OF assms] by auto
  show ?thesis using canvas_calls_inv[OF c(2), of ops] c(1) by simp
qed

theorem canvas_colors_length_witness:
  "MplCanvas [[0, 0, 40, 180, 0, 0]]
     = Inr \<lparr>cpoints = [[0, 0, 40, 180, 0, 0]], colors = [blue], scatter = True\<rparr>
   \<and> update_point_color \<lparr>cpoints = [[0, 0, 40, 180, 0, 0]], colors = [blue], scatter = True\<rparr> 0 (2, 0, 0, 1)
     = (Some ValueError, \<lparr>cpoints = [[0, 0, 40, 180, 0, 0]], colors = [(2, 0, 0, 1)], scatter = False\<rparr>)
   \<and> fst (highlight_point \<lparr>cpoints = [[0, 0, 40, 180, 0, 0]], colors = [(2, 0, 0, 1)], scatter = False\<rparr> 0)
     = Some ValueError
   \<and> length (colors (canvas_calls \<lparr>cpoints = [[0, 0, 40, 180, 0, 0]], colors = [blue], scatter = True\<rparr>
        [Update_point_color 0 (2, 0, 0, 1), Highlight_point 0, Update_point_color 0 green])) = 1"
proof -
  have m: "MplCanvas [[0, 0, 40, 180, 0, 0]]
     = Inr \<lparr>cpoints = [[0, 0, 40, 180, 0, 0]], colors = [blue], scatter = True\<rparr>"
    by (simp add: MplCanvas_def ax_scatter_def valid_named_colors)
  have u: "update_point_color \<lparr>cpoints = [[0, 0, 40, 180, 0, 0]], colors = [blue], scatter = True\<rparr> 0 (2, 0, 0, 1)
     = (Some ValueError, \<lparr>cpoints = [[0, 0, 40, 180, 0, 0]], colors = [(2, 0, 0, 1)], scatter = False\<rparr>)"
    by (simp add: update_point_color_def redraw_def ax_scatter_def valid_color_def)
  have h: "fst (highlight_point \<lparr>cpoints = [[0, 0, 40, 180, 0, 0]], colors = [(2, 0, 0, 1)], scatter = False\<rparr> 0)
     = Some ValueError"
    by (simp add: highlight_point_def redraw_def white_def red_def)
  show ?thesis
    using canvas_colors_length[OF m, of "[Update_point_color 0 (2, 0, 0, 1), Highlight_point 0, Update_point_color 0 green]"]
      m u h by simp
qed

text \<open>
  Claim C5, as stated, fails for \<open>highlight_point\<close>: its reset loop runs before the
  range guard. On a one-pose canvas whose marker was highlighted yellow by
  \<open>highlight_point(0)\<close>, the call \<open>highlight_point(1)\<close>, with an index outside [0, 1),
  changes the colour array from [yellow] to [blue].
\<close>

theorem highlight_point_out_of_range_counterexample:
  "MplCanvas [[0, 0, 40, 180, 0, 0]]
     = Inr \<lparr>cpoints = [[0, 0, 40, 180, 0, 0]], colors = [blue], scatter = True\<rparr>
   \<and> highlight_point \<lparr>cpoints = [[0, 0, 40, 180, 0, 0]], colors = [blue], scatter = True\<rparr> 0
     = (None, \<lparr>cpoints = [[0, 0, 40, 180, 0, 0]], colors = [yellow], scatter = True\<rparr>)
   \<and> highlight_point \<lparr>cpoints = [[0, 0, 40, 180, 0, 0]], colors = [yellow], scatter = True\<rparr> 1
     = (None, \<lparr>cpoints = [[0, 0, 40, 180, 0, 0]], colors = [blue], scatter = True\<rparr>)
   \<and> colors \<lparr>cpoints = [[0, 0, 40, 180, 0, 0]], colors = [blue], scatter = True\<rparr>
     \<noteq> colors \<lparr>cpoints = [[0, 0, 40, 180, 0, 0]], colors = [yellow], scatter = True\<rparr>"
  by (simp add: highlight_point_def MplCanvas_def redraw_def ax_scatter_def valid_color_def
        blue_def white_def red_def yellow_def)

text \<open>
  Claim C5, amended. For an index outside [0, N) and any colour, \<open>update_point_color\<close>
  returns normally and leaves the canvas unchanged. On a canvas with one colour per pose,
  \<open>highlight_point\<close> with such an index applies no yellow highlight, keeps every white
  and red entry and sets every other entry to blue, so it leaves the colour array
  unchanged when every entry is already blue, white or red. It returns normally when the
  scatter layer is in the axes and every pose has three components; when an earlier
  failed redraw has left the layer removed, it raises at the removal, the colours
  already reset.
\<close>

theorem out_of_range_index:
  assumes "index < 0 \<or> int (length (cpoints c)) \<le> index"
    and "length (colors c) = length (cpoints c)"
  shows "update_point_color c index color = (None, c)
       \<and> cpoints (snd (highlight_point c index)) = cpoints c
       \<and> colors (snd (highlight_point c index))
           = map (\<lambda>k. if k = white \<or> k = red then k else blue) (colors c)
       \<and> (list_all (\<lambda>k. k = blue \<or> k = white \<or> k = red) (colors c)
            \<longrightarrow> colors (snd (highlight_point c index)) = colors c)
       \<and> (scatter c \<and> list_all (\<lambda>p. 3 \<le> length p) (cpoints c)
            \<longrightarrow> highlight_point c index =
                 (None, c\<lparr>colors := map (\<lambda>k. if k = white \<or> k = red then k else blue) (colors c)\<rparr>))
       \<and> (\<not> scatter c \<longrightarrow> fst (highlight_point c index) = Some ValueError)"
proof -
  let ?cols = "map (\<lambda>k. if k = white \<or> k = red then k else blue) (colors c)"
  have u: "update_point_color c index color = (None, c)"
    using assms(1) by (auto simp: update_point_color_def)
  have h: "highlight_point c index = redraw (c\<lparr>colors := ?cols\<rparr>)"
    using assms by (auto simp: highlight_point_def reset_unvisited_all)
  have id: "?cols = colors c"
    if "list_all (\<lambda>k. k = blue \<or> k = white \<or> k = red) (colors c)"
    using that by (intro map_idI) (auto simp: list_all_iff)
  have ok: "redraw (c\<lparr>colors := ?cols\<rparr>) = (None, c\<lparr>colors := ?cols\<rparr>)"
    if "scatter c \<and> list_all (\<lambda>p. 3 \<le> length p) (cpoints c)"
    using that assms(2) by (intro redraw_drawable) (simp add: drawable_def reset_colors_valid)
  have bad: "fst (redraw (c\<lparr>colors := ?cols\<rparr>)) = Some ValueError" if "\<not> scatter c"
    using that by (simp add: redraw_def)
  show ?thesis
    unfolding h using u id ok bad by simp
qed

theorem out_of_range_index_witness:
  "update_point_color \<lparr>cpoints = [[0, 0, 40, 180, 0, 0]], colors = [gray], scatter = True\<rparr> (- 1) green
      = (None, \<lparr>cpoints = [[0, 0, 40, 180, 0, 0]], colors = [gray], scatter = True\<rparr>)
   \<and> highlight_point \<lparr>cpoints = [[0, 0, 40, 180, 0, 0]], colors = [gray], scatter = True\<rparr> (- 1)
      = (None, \<lparr>cpoints = [[0, 0, 40, 180, 0, 0]], colors = [blue], scatter = True\<rparr>)
   \<and> colors (snd (highlight_point \<lparr>cpoints = [[0, 0, 40, 180, 0, 0]], colors = [white], scatter = True\<rparr> 7))
      = [white]
   \<and> fst (highlight_point \<lparr>cpoints = [[0, 0, 40, 180, 0, 0]], colors = [gray], scatter = False\<rparr> 7)
      = Some ValueError"
  using out_of_range_index[of "- 1" "\<lparr>cpoints = [[0, 0, 40, 180, 0, 0]], colors = [gray], scatter = True\<rparr>" green]
        out_of_range_index[of 7 "\<lparr>cpoints = [[0, 0, 40, 180, 0, 0]], colors = [white], scatter = True\<rparr>" green]
        out_of_range_index[of 7 "\<lparr>cpoints = [[0, 0, 40, 180, 0, 0]], colors = [gray], scatter = False\<rparr>" green]
  by (simp add: gray_def white_def red_def blue_def)

section \<open>Properties of the polar grid generator\<close>

lemma sample_within: "list_all within_reach (sample z radius i)"
  by (simp add: sample_def Let_def within_reach_def MAX_REACH_def RX_FIXED_def RY_FIXED_def RZ_FIXED_def)

lemma ring_within: "list_all within_reach (concat (map (sample z radius) is))"
  by (induction "is") (simp_all add: sample_within)

lemma radius_loop_within: "list_all within_reach (radius_loop z radius)"
proof (induction z radius rule: radius_loop.induct)
  case (1 z radius)
  show ?case
  proof (cases "radius \<le> MAX_RADIUS")
    case True
    with 1 show ?thesis by (subst radius_loop.simps) (simp add: ring_within)
  next
    case False
    then show ?thesis by (subst radius_loop.simps) simp
  qed
qed

lemma generate_points_within: "list_all within_reach generate_points"
  unfolding generate_points_def
  by (intro list_all_concat_map radius_loop_within)

lemma py_round2_20: "py_round2 20 = 20"
  using round_half_even_int[of 2000] by (simp add: py_round2_def)

lemma py_round2_0: "py_round2 0 = 0"
  using round_half_even_int[of 0] by (simp add: py_round2_def)

lemma first_sample: "sample 40 20 0 = [[20, 0, 40, 180, 0, 0]]"
proof -
  have "sqrt (2000::real) \<le> 280" by (rule real_le_lsqrt) simp_all
  then show ?thesis
  by (simp add: sample_def Let_def py_round2_20 py_round2_0 MAX_REACH_def RX_FIXED_def RY_FIXED_def RZ_FIXED_def)
qed

lemma generate_points_first:
  "\<exists>rest. generate_points = [20, 0, 40, 180, 0, 0] # rest"
proof -
  have up: "[0..<ANGLE_STEPS] = 0 # [1..<ANGLE_STEPS]"
    by (simp add: ANGLE_STEPS_def upt_conv_Cons)
  have "radius_loop 40 20 = concat (map (sample 40 20) [0..<ANGLE_STEPS]) @ radius_loop 40 (20 + RADIUS_STEP)"
    by (subst radius_loop.simps) (simp add: MAX_RADIUS_def)
  then have "radius_loop 40 20 = [20, 0, 40, 180, 0, 0] # (concat (map (sample 40 20) [1..<ANGLE_STEPS]) @ radius_loop 40 (20 + RADIUS_STEP))"
    by (simp add: up first_sample)
  then show ?thesis
    by (simp add: generate_points_def Z_LAYERS_def RADIUS_STEP_def)
qed

text \<open>
  Claim C7. Every pose returned by the polar generator has six components, a position
  (rounded x, rounded y, layer height z) at Euclidean distance at most 280 from the
  origin and orientation (180, 0, 0). The sample for height 40, radius 20 and angle
  index 0 is (20, 0, 40, 180, 0, 0), it is accepted, and it is the first pose returned.
\<close>

theorem polar_points_within_reach:
  "list_all within_reach generate_points
   \<and> sample 40 20 0 = [[20, 0, 40, 180, 0, 0]]
   \<and> (\<exists>rest. generate_points = [20, 0, 40, 180, 0, 0] # rest)"
  using generate_points_within first_sample generate_points_first by simp

section \<open>Properties of the main window: the stop latch\<close>

lemma call_hw_frame:
  "call_hw c f s = (r, s') \<Longrightarrow> s' = s\<lparr>device := device s', calls := calls s @ [c]\<rparr>"
  by (auto simp: call_hw_def split: prod.splits)

lemma call_hw_stopped [simp]: "stopped (snd (call_hw c f s)) = stopped s"
  by (simp add: call_hw_def split: prod.splits)

lemma log_stopped [simp]: "stopped (log m s) = stopped s"
  by (simp add: log_def)

lemma print_stopped [simp]: "stopped (print m s) = stopped s"
  by (simp add: print_def)

lemma set_robot_busy_fields [simp]:
  "mc (set_robot_busy b s) = mc s" "device (set_robot_busy b s) = device s"
  "calls (set_robot_busy b s) = calls s" "points (set_robot_busy b s) = points s"
  "current_index (set_robot_busy b s) = current_index s" "robot_busy (set_robot_busy b s) = b"
  "paused (set_robot_busy b s) = paused s" "stopped (set_robot_busy b s) = stopped s"
  "canvas (set_robot_busy b s) = canvas s" "speed_slider (set_robot_busy b s) = speed_slider s"
  "results (set_robot_busy b s) = results s" "single_shots (set_robot_busy b s) = single_shots s"
  "steps (set_robot_busy b s) = steps s @ [Busy_set b]"
  by (simp_all add: set_robot_busy_def)

lemma set_current_index_fields [simp]:
  "mc (set_current_index n s) = mc s" "device (set_current_index n s) = device s"
  "calls (set_current_index n s) = calls s" "points (set_current_index n s) = points s"
  "current_index (set_current_index n s) = n" "robot_busy (set_current_index n s) = robot_busy s"
  "paused (set_current_index n s) = paused s" "stopped (set_current_index n s) = stopped s"
  "canvas (set_current_index n s) = canvas s" "speed_slider (set_current_index n s) = speed_slider s"
  "results (set_current_index n s) = results s" "single_shots (set_current_index n s) = single_shots s"
  "steps (set_current_index n s) = steps s @ [Index_set n]"
  by (simp_all add: set_current_index_def)

lemma singleShot_fields [simp]:
  "mc (singleShot t cb s) = mc s" "device (singleShot t cb s) = device s"
  "calls (singleShot t cb s) = calls s" "points (singleShot t cb s) = points s"
  "current_index (singleShot t cb s) = current_index s" "robot_busy (singleShot t cb s) = robot_busy s"
  "paused (singleShot t cb s) = paused s" "stopped (singleShot t cb s) = stopped s"
  "canvas (singleShot t cb s) = canvas s" "speed_slider (singleShot t cb s) = speed_slider s"
  "results (singleShot t cb s) = results s"
  "single_shots (singleShot t cb s) = single_shots s @ [(t, cb)]"
  "steps (singleShot t cb s) = steps s @ [Timer_set t cb]"
  by (simp_all add: singleShot_def)

lemma safe_mc_send_coords_stopped [simp]: "stopped (safe_mc_send_coords coords speed s) = stopped s"
  by (simp add: safe_mc_send_coords_def call_hw_def split: option.splits prod.splits reply.splits)

lemma safe_mc_get_coords_stopped [simp]: "stopped (snd (safe_mc_get_coords s)) = stopped s"
  by (simp add: safe_mc_get_coords_def call_hw_def split: option.splits prod.splits reply.splits)

lemma safe_mc_is_moving_stopped [simp]: "stopped (snd (safe_mc_is_moving s)) = stopped s"
  by (simp add: safe_mc_is_moving_def call_hw_def split: option.splits prod.splits reply.splits)

lemma attempt_stop_api_stopped [simp]: "stopped (snd (attempt_stop_api s)) = stopped s"
  by (simp add: attempt_stop_api_def call_hw_def split: option.splits prod.splits reply.splits)

lemma attempt_stop_api_paused [simp]: "paused (snd (attempt_stop_api s)) = paused s"
  by (simp add: attempt_stop_api_def call_hw_def log_def split: option.splits prod.splits reply.splits)

lemma safe_mc_get_coords_paused [simp]: "paused (snd (safe_mc_get_coords s)) = paused s"
  by (simp add: safe_mc_get_coords_def call_hw_def split: option.splits prod.splits reply.splits)

lemma move_to_next_point_stopped [simp]: "stopped (snd (move_to_next_point s)) = stopped s"
  by (simp add: move_to_next_point_def Let_def case_prod_beta split: option.splits)

lemma skip_point_stopped [simp]: "stopped (snd (skip_point s)) = stopped s"
  by (simp add: skip_point_def Let_def)

lemma color_current_point_stopped [simp]: "stopped (snd (color_current_point s)) = stopped s"
  by (simp add: color_current_point_def Let_def case_prod_beta)

lemma start_exploration_stopped [simp]: "stopped (snd (start_exploration s)) = stopped s"
  by (simp add: start_exploration_def Let_def case_prod_beta split: option.splits)

lemma toggle_pause_stopped [simp]: "stopped (snd (toggle_pause s)) = stopped s"
  by (simp add: toggle_pause_def Let_def)

lemma go_home_stopped [simp]: "stopped (snd (go_home s)) = stopped s"
  by (simp add: go_home_def Let_def call_hw_def split: option.splits prod.splits reply.splits)

lemma jog_axis_stopped [simp]: "stopped (snd (jog_axis axis_index delta s)) = stopped s"
  by (simp add: jog_axis_def Let_def case_prod_beta split: option.splits)

lemma update_live_pose_stopped [simp]: "stopped (update_live_pose s) = stopped s"
  by (simp add: update_live_pose_def case_prod_beta split: option.splits list.splits)

lemma check_robot_status_stopped: "stopped s \<Longrightarrow> stopped (snd (check_robot_status now s))"
  by (simp add: check_robot_status_def Let_def)

lemma export_log_stopped [simp]: "stopped (export_log stamp io s) = stopped s"
  by (simp add: export_log_def Let_def split: prod.splits option.splits)

lemma clear_log_stopped [simp]: "stopped (clear_log s) = stopped s"
  by (simp add: clear_log_def)

lemma call_hw_paused [simp]: "paused (snd (call_hw c f s)) = paused s"
  by (simp add: call_hw_def split: prod.splits)

lemma log_paused [simp]: "paused (log m s) = paused s"
  by (simp add: log_def)

lemma emergency_stop_flags: "stopped (emergency_stop s) \<and> paused (emergency_stop s)"
  by (simp add: emergency_stop_def Let_def case_prod_beta
           split: bool.splits option.splits list.splits reply.splits)

lemma clear_stop_clears: "stopped s \<Longrightarrow> \<not> stopped (snd (clear_stop s))"
  by (simp add: clear_stop_def Let_def case_prod_beta
           split: option.splits reply.splits)

text \<open>
  Claim C3. After emergency stop both \<open>stopped\<close> and \<open>paused\<close> are true, whatever the
  handle is and whatever its calls do. While \<open>stopped\<close> is true, \<open>start_exploration\<close>
  only logs the system-stopped message: it makes no hardware call and changes nothing
  else. Every event other than the reset leaves \<open>stopped\<close> true, and the reset
  (\<open>clear_stop\<close>) leaves it false.
\<close>

theorem emergency_stop_latched:
  "stopped (emergency_stop s) \<and> paused (emergency_stop s)
   \<and> (stopped s \<longrightarrow>
        start_exploration s = (None, log System_stopped s)
        \<and> calls (snd (start_exploration s)) = calls s
        \<and> status_box (snd (start_exploration s)) = status_box s @ [System_stopped])
   \<and> (stopped s \<and> a \<noteq> Click_reset \<longrightarrow> stopped (snd (perform a s)))
   \<and> (stopped s \<longrightarrow> \<not> stopped (snd (perform Click_reset s)))"
proof -
  have p: "stopped (snd (perform a s))" if "stopped s" "a \<noteq> Click_reset"
    using that
    by (cases a) (simp_all add: perform_def emergency_stop_flags check_robot_status_stopped
        split: list.splits prod.splits callback.splits)
  have q: "start_exploration s = (None, log System_stopped s)" if "stopped s"
    using that by (simp add: start_exploration_def)
  show ?thesis
    using emergency_stop_flags[of s] p q clear_stop_clears[of s]
    by (auto simp: perform_def log_def)
qed

theorem emergency_stop_latched_witness:
  "stopped (emergency_stop demo_gui) \<and> paused (emergency_stop demo_gui)
   \<and> stopped (demo_gui\<lparr>stopped := True\<rparr>)
   \<and> start_exploration (demo_gui\<lparr>stopped := True\<rparr>)
        = (None, log System_stopped (demo_gui\<lparr>stopped := True\<rparr>))
   \<and> stopped (snd (perform Click_start (demo_gui\<lparr>stopped := True\<rparr>)))
   \<and> \<not> stopped (snd (perform Click_reset (demo_gui\<lparr>stopped := True\<rparr>)))"
  using emergency_stop_latched[of demo_gui Click_start]
        emergency_stop_latched[of "demo_gui\<lparr>stopped := True\<rparr>" Click_start]
  by (simp add: demo_gui_def)

section \<open>Properties of the timer tick\<close>

lemmas hw_defs = call_hw_def safe_mc_get_coords_def safe_mc_is_moving_def case_prod_beta

lemma safe_mc_get_coords_fields [simp]:
  "mc (snd (safe_mc_get_coords s)) = mc s \<and> points (snd (safe_mc_get_coords s)) = points s
   \<and> current_index (snd (safe_mc_get_coords s)) = current_index s
   \<and> robot_busy (snd (safe_mc_get_coords s)) = robot_busy s
   \<and> paused (snd (safe_mc_get_coords s)) = paused s
   \<and> stopped (snd (safe_mc_get_coords s)) = stopped s
   \<and> canvas (snd (safe_mc_get_coords s)) = canvas s
   \<and> pose_labels (snd (safe_mc_get_coords s)) = pose_labels s
   \<and> pause_btn (snd (safe_mc_get_coords s)) = pause_btn s
   \<and> speed_slider (snd (safe_mc_get_coords s)) = speed_slider s
   \<and> status_box (snd (safe_mc_get_coords s)) = status_box s
   \<and> console (snd (safe_mc_get_coords s)) = console s
   \<and> results (snd (safe_mc_get_coords s)) = results s
   \<and> single_shots (snd (safe_mc_get_coords s)) = single_shots s
   \<and> files (snd (safe_mc_get_coords s)) = files s
   \<and> steps (snd (safe_mc_get_coords s)) = steps s
   \<and> calls (snd (safe_mc_get_coords s)) = calls s @ (case mc s of None \<Rightarrow> [] | Some m \<Rightarrow> [Get_coords])"
  by (simp add: hw_defs split: option.splits reply.splits)

lemma safe_mc_is_moving_fields [simp]:
  "mc (snd (safe_mc_is_moving s)) = mc s \<and> points (snd (safe_mc_is_moving s)) = points s
   \<and> current_index (snd (safe_mc_is_moving s)) = current_index s
   \<and> robot_busy (snd (safe_mc_is_moving s)) = robot_busy s
   \<and> paused (snd (safe_mc_is_moving s)) = paused s
   \<and> stopped (snd (safe_mc_is_moving s)) = stopped s
   \<and> canvas (snd (safe_mc_is_moving s)) = canvas s
   \<and> pose_labels (snd (safe_mc_is_moving s)) = pose_labels s
   \<and> pause_btn (snd (safe_mc_is_moving s)) = pause_btn s
   \<and> speed_slider (snd (safe_mc_is_moving s)) = speed_slider s
   \<and> status_box (snd (safe_mc_is_moving s)) = status_box s
   \<and> console (snd (safe_mc_is_moving s)) = console s
   \<and> results (snd (safe_mc_is_moving s)) = results s
   \<and> single_shots (snd (safe_mc_is_moving s)) = single_shots s
   \<and> files (snd (safe_mc_is_moving s)) = files s
   \<and> steps (snd (safe_mc_is_moving s)) = steps s
   \<and> calls (snd (safe_mc_is_moving s)) = calls s @ (case mc s of None \<Rightarrow> [] | Some m \<Rightarrow> [Is_moving])"
  by (simp add: hw_defs split: option.splits reply.splits)

lemma update_live_pose_fields [simp]:
  "mc (update_live_pose s) = mc s \<and> points (update_live_pose s) = points s
   \<and> current_index (update_live_pose s) = current_index s
   \<and> robot_busy (update_live_pose s) = robot_busy s
   \<and> paused (update_live_pose s) = paused s
   \<and> stopped (update_live_pose s) = stopped s
   \<and> canvas (update_live_pose s) = canvas s
   \<and> pause_btn (update_live_pose s) = pause_btn s
   \<and> speed_slider (update_live_pose s) = speed_slider s
   \<and> status_box (update_live_pose s) = status_box s
   \<and> console (update_live_pose s) = console s
   \<and> results (update_live_pose s) = results s
   \<and> single_shots (update_live_pose s) = single_shots s
   \<and> files (update_live_pose s) = files s
   \<and> steps (update_live_pose s) = steps s
   \<and> calls (update_live_pose s) = calls s @ (case mc s of None \<Rightarrow> [] | Some m \<Rightarrow> [Get_coords])"
  by (simp add: update_live_pose_def case_prod_beta split: option.splits list.splits)

lemma update_live_pose_labels:
  "pose_labels (update_live_pose s) =
     (case fst (safe_mc_get_coords s) of
        Some (c # cs) \<Rightarrow> set_labels (c # cs) (pose_labels s)
      | _ \<Rightarrow> pose_labels s)"
  by (simp add: update_live_pose_def case_prod_beta split: option.splits list.splits)

lemma update_live_pose_absent: "mc s = None \<Longrightarrow> update_live_pose s = s"
  by (simp add: update_live_pose_def safe_mc_get_coords_def)

lemma list_all_update: "list_all P xs \<Longrightarrow> P v \<Longrightarrow> list_all P (xs[i := v])"
  using set_update_subset_insert[of xs i v] by (auto simp: list_all_iff)

lemma update_point_color_drawable:
  "fst (update_point_color c i col) = None \<Longrightarrow> drawable c \<Longrightarrow>
   drawable (snd (update_point_color c i col))"
  by (auto simp: update_point_color_def redraw_def drawable_def ax_scatter_def
           split: if_splits option.splits)

lemma update_point_color_valid:
  assumes "drawable c" "0 \<le> i" "i < int (length (cpoints c))" "valid_color col"
  shows "update_point_color c i col = (None, c\<lparr>colors := (colors c)[nat i := col]\<rparr>)"
proof -
  have "drawable (c\<lparr>colors := (colors c)[nat i := col]\<rparr>)"
    using assms by (simp add: drawable_def list_all_update)
  from redraw_drawable[OF this] assms show ?thesis
    by (simp add: update_point_color_def drawable_def)
qed

lemma highlight_point_drawable:
  assumes "drawable c"
  shows "fst (highlight_point c i) = None \<and> drawable (snd (highlight_point c i))
       \<and> cpoints (snd (highlight_point c i)) = cpoints c"
proof -
  let ?cols = "map (\<lambda>k. if k = white \<or> k = red then k else blue) (colors c)"
  have len: "length (colors c) = length (cpoints c)" using assms by (simp add: drawable_def)
  have d1: "drawable (c\<lparr>colors := ?cols\<rparr>)"
    using assms by (simp add: drawable_def reset_colors_valid)
  have d2: "drawable (c\<lparr>colors := ?cols[nat i := yellow]\<rparr>)"
    using assms by (simp add: drawable_def reset_colors_valid list_all_update valid_named_colors)
  show ?thesis
    using redraw_drawable[OF d1] redraw_drawable[OF d2] d1 d2 len
    by (auto simp: highlight_point_def reset_unvisited_all)
qed

text \<open>What a completed evaluation leaves behind.\<close>

lemma evaluate_point_cases:
  "(fst (evaluate_point now s) \<noteq> None \<and> results (snd (evaluate_point now s)) = results s) \<or>
   (fst (evaluate_point now s) = None \<and>
     (\<exists>mid. length (results mid) = Suc (length (results s))
        \<and> paused mid = paused s \<and> stopped mid = stopped s
        \<and> single_shots mid = single_shots s \<and> current_index mid = current_index s
        \<and> steps mid = steps s \<and> mc mid = mc s \<and> points mid = points s
        \<and> speed_slider mid = speed_slider s
        \<and> (drawable (canvas s) \<longrightarrow> drawable (canvas mid))
        \<and> calls mid = calls s @ (case mc s of None \<Rightarrow> [] | Some m \<Rightarrow> [Get_coords])
        \<and> snd (evaluate_point now s) = finish_point mid))"
proof -
  let ?g = "safe_mc_get_coords s"
  let ?s1 = "snd ?g"
  show ?thesis
  proof (cases "length (points s) \<le> current_index s")
    case True
    then show ?thesis by (simp add: evaluate_point_def case_prod_beta)
  next
    case inr: False
    let ?tgt = "points s ! current_index s"
    have fin: ?thesis
      if ev: "evaluate_point now s =
            (case fst (update_point_color (canvas (log m ?s1)) (int (current_index s)) col) of
               Some e \<Rightarrow> (Some e, (log m ?s1)\<lparr>canvas := snd (update_point_color (canvas (log m ?s1)) (int (current_index s)) col)\<rparr>)
             | None \<Rightarrow> (None, finish_point ((log m ?s1)\<lparr>canvas := snd (update_point_color (canvas (log m ?s1)) (int (current_index s)) col),
                   results := results (log m ?s1) @ [v]\<rparr>)))"
      for m col v
    proof (cases "fst (update_point_color (canvas (log m ?s1)) (int (current_index s)) col)")
      case (Some e)
      have "fst (evaluate_point now s) = Some e"
        "snd (evaluate_point now s) = (log m ?s1)\<lparr>canvas := snd (update_point_color (canvas (log m ?s1)) (int (current_index s)) col)\<rparr>"
        unfolding ev Some by simp_all
      then show ?thesis by (simp add: log_def)
    next
      case None
      let ?mid = "(log m ?s1)\<lparr>canvas := snd (update_point_color (canvas (log m ?s1)) (int (current_index s)) col),
                   results := results (log m ?s1) @ [v]\<rparr>"
      have cv: "canvas (log m ?s1) = canvas s" by (simp add: log_def)
      have "snd (evaluate_point now s) = finish_point ?mid" "fst (evaluate_point now s) = None"
        unfolding ev None by simp_all
      moreover have "length (results ?mid) = Suc (length (results s))" "paused ?mid = paused s"
        "stopped ?mid = stopped s" "single_shots ?mid = single_shots s"
        "current_index ?mid = current_index s" "steps ?mid = steps s" "mc ?mid = mc s"
        "points ?mid = points s" "speed_slider ?mid = speed_slider s"
        "calls ?mid = calls s @ (case mc s of None \<Rightarrow> [] | Some m \<Rightarrow> [Get_coords])"
        by (simp_all add: log_def)
      moreover have "drawable (canvas s) \<longrightarrow> drawable (canvas ?mid)"
        using update_point_color_drawable[of "canvas s" "int (current_index s)" col] None
        unfolding cv by simp
      ultimately show ?thesis by blast
    qed
    show ?thesis
    proof (cases "fst ?g")
      case None
      show ?thesis
        by (rule fin[where m = Could_not_read_final and col = gray
              and v = "\<lparr>target = ?tgt, reached = None, error = None, pass = False, timestamp = now\<rparr>"])
           (use None inr in \<open>simp add: evaluate_point_def case_prod_beta Let_def log_def
                cong: option.case_cong\<close>)
    next
      case (Some fin)
      show ?thesis
      proof (cases "length fin < 3 \<or> length ?tgt < 3")
        case True
        then show ?thesis using Some inr
          by (auto simp add: evaluate_point_def case_prod_beta Let_def)
      next
        case ok: False
        let ?err = "position_error fin ?tgt"
        show ?thesis
          by (rule fin[where m = "if ?err < 10 then Point_ok (current_index s) (take 3 fin) ?err
                              else Point_fail (current_index s) (take 3 fin) ?err"
                and col = "if ?err < 10 then white else red"
                and v = "\<lparr>target = ?tgt, reached = Some fin, error = Some ?err,
                            pass = (if ?err < 10 then True else False), timestamp = now\<rparr>"])
             (use Some inr ok in \<open>simp add: evaluate_point_def case_prod_beta Let_def log_def
                cong: option.case_cong\<close>)
      qed
    qed
  qed
qed

lemma finish_point_running:
  "\<not> paused s \<Longrightarrow> \<not> stopped s \<Longrightarrow>
   finish_point s = singleShot 250 Move_to_next_point
                      (set_current_index (current_index s + 1) (set_robot_busy False s))"
  by (simp add: finish_point_def Let_def)

text \<open>What the deferred callback does when it runs on a window that is neither paused nor stopped.\<close>

lemma move_to_next_point_sends:
  assumes "\<not> paused s" "\<not> stopped s" "drawable (canvas s)"
  shows "fst (move_to_next_point s) = None
       \<and> single_shots (snd (move_to_next_point s)) = single_shots s
       \<and> calls (snd (move_to_next_point s)) = calls s @
            (if current_index s < length (points s)
             then (case mc s of None \<Rightarrow> []
                   | Some m \<Rightarrow> [Send_coords (points s ! current_index s) (speed_slider s) 0])
             else [])"
proof (cases "current_index s < length (points s)")
  case False
  then show ?thesis using assms by (simp add: move_to_next_point_def log_def)
next
  case True
  let ?s1 = "log (Moving_to (points s ! current_index s) (current_index s)) s"
  have cv: "canvas ?s1 = canvas s" "current_index ?s1 = current_index s"
    "speed_slider ?s1 = speed_slider s"
    by (simp_all add: log_def)
  have h: "fst (highlight_point (canvas s) (int (current_index s))) = None"
    using highlight_point_drawable[OF assms(3)] by simp
  have mv: "move_to_next_point s =
      (None, safe_mc_send_coords (points s ! current_index s) (speed_slider s)
         (?s1\<lparr>canvas := snd (highlight_point (canvas s) (int (current_index s)))\<rparr>))"
    using assms(1,2) True h by (simp add: move_to_next_point_def Let_def case_prod_beta cv)
  show ?thesis
    unfolding mv using True
    by (simp add: safe_mc_send_coords_def call_hw_def log_def case_prod_beta
             split: option.splits reply.splits)
qed

text \<open>
  Claim C4. A tick performs a point evaluation exactly when it records a Visit result.
  Every such tick returns normally with \<open>robot_busy\<close> false and the cursor advanced by
  exactly one. Its recorded steps are, in this order, the clearing of \<open>robot_busy\<close>, the
  advance of the cursor and the scheduling of the one-shot \<open>move_to_next_point\<close> with a
  delay of 250 ms: the flag is cleared and the cursor advanced before the follow-up is
  scheduled. The only hardware calls of the tick are the two coordinate reads and the
  is-moving query, so no move command is issued in the tick itself. When that one-shot
  then fires (no other timer pending, canvas drawable), it issues the move toward the
  pose at the new cursor, at the commanded speed, if there is one and a handle is present.
\<close>

theorem evaluation_defers_next_move:
  assumes "results (snd (check_robot_status now s)) \<noteq> results s"
  shows "fst (check_robot_status now s) = None
       \<and> length (results (snd (check_robot_status now s))) = Suc (length (results s))
       \<and> \<not> robot_busy (snd (check_robot_status now s))
       \<and> current_index (snd (check_robot_status now s)) = current_index s + 1
       \<and> single_shots (snd (check_robot_status now s)) = single_shots s @ [(250, Move_to_next_point)]
       \<and> steps (snd (check_robot_status now s))
           = steps s @ [Busy_set False, Index_set (current_index s + 1),
                        Timer_set 250 Move_to_next_point]
       \<and> calls (snd (check_robot_status now s))
           = calls s @ (case mc s of None \<Rightarrow> [] | Some m \<Rightarrow> [Get_coords, Is_moving, Get_coords])
       \<and> (single_shots s = [] \<and> drawable (canvas s) \<longrightarrow>
            fst (perform Single_shot (snd (check_robot_status now s))) = None
          \<and> single_shots (snd (perform Single_shot (snd (check_robot_status now s)))) = []
          \<and> calls (snd (perform Single_shot (snd (check_robot_status now s))))
              = calls (snd (check_robot_status now s)) @
                (if current_index s + 1 < length (points s)
                 then (case mc s of None \<Rightarrow> []
                       | Some m \<Rightarrow> [Send_coords (points s ! (current_index s + 1)) (speed_slider s) 0])
                 else []))"
proof -
  let ?s1 = "update_live_pose s"
  let ?s2 = "snd (safe_mc_is_moving ?s1)"
  let ?t = "snd (check_robot_status now s)"
  have run: "\<not> (length (points s) \<le> current_index s \<or> paused s \<or> stopped s)"
    using assms by (auto simp: check_robot_status_def Let_def)
  have nm: "\<not> fst (safe_mc_is_moving ?s1)"
    using assms run by (auto simp: check_robot_status_def Let_def case_prod_beta split: bool.splits)
  have busy: "robot_busy s"
    using assms run nm by (auto simp: check_robot_status_def Let_def case_prod_beta split: bool.splits if_splits)
  have tick: "check_robot_status now s = evaluate_point now ?s2"
    using run nm busy by (simp add: check_robot_status_def Let_def case_prod_beta split: bool.splits)
  from evaluate_point_cases[of now ?s2] assms tick
  obtain mid where mid: "fst (evaluate_point now ?s2) = None"
      "length (results mid) = Suc (length (results s))"
      "paused mid = paused s" "stopped mid = stopped s" "single_shots mid = single_shots s"
      "current_index mid = current_index s" "steps mid = steps s" "mc mid = mc s"
      "points mid = points s" "speed_slider mid = speed_slider s"
      "drawable (canvas s) \<longrightarrow> drawable (canvas mid)"
      "calls mid = calls ?s2 @ (case mc s of None \<Rightarrow> [] | Some m \<Rightarrow> [Get_coords])"
      "snd (evaluate_point now ?s2) = finish_point mid"
    by auto
  have fin: "finish_point mid = singleShot 250 Move_to_next_point
                      (set_current_index (current_index mid + 1) (set_robot_busy False mid))"
    using run mid by (intro finish_point_running) simp_all
  have t: "?t = singleShot 250 Move_to_next_point
                      (set_current_index (current_index s + 1) (set_robot_busy False mid))"
    using tick mid(6,13) fin by simp
  have cl: "calls ?t
           = calls s @ (case mc s of None \<Rightarrow> [] | Some m \<Rightarrow> [Get_coords, Is_moving, Get_coords])"
    unfolding t by (simp add: mid split: option.splits)
  have fire: "fst (perform Single_shot ?t) = None
          \<and> single_shots (snd (perform Single_shot ?t)) = []
          \<and> calls (snd (perform Single_shot ?t))
              = calls ?t @
                (if current_index s + 1 < length (points s)
                 then (case mc s of None \<Rightarrow> []
                       | Some m \<Rightarrow> [Send_coords (points s ! (current_index s + 1)) (speed_slider s) 0])
                 else [])"
    if h: "single_shots s = []" "drawable (canvas s)"
  proof -
    let ?u = "?t\<lparr>single_shots := []\<rparr>"
    have p: "perform Single_shot ?t = move_to_next_point ?u"
      unfolding t by (simp add: perform_def mid h(1))
    have u: "\<not> paused ?u" "\<not> stopped ?u" "drawable (canvas ?u)" "single_shots ?u = []"
      "calls ?u = calls ?t" "current_index ?u = current_index s + 1" "points ?u = points s"
      "mc ?u = mc s" "speed_slider ?u = speed_slider s"
      unfolding t using run mid h(2) by simp_all
    show ?thesis
      unfolding p using move_to_next_point_sends[OF u(1,2,3)] u(4-9)
      by (simp cong: option.case_cong)
  qed
  have f1: "fst (check_robot_status now s) = None" using tick mid(1) by simp
  have r1: "length (results ?t) = Suc (length (results s))" unfolding t by (simp add: mid)
  have r2: "\<not> robot_busy ?t" unfolding t by simp
  have r3: "current_index ?t = current_index s + 1" unfolding t by simp
  have r4: "single_shots ?t = single_shots s @ [(250, Move_to_next_point)]"
    unfolding t by (simp add: mid)
  have r5: "steps ?t = steps s @ [Busy_set False, Index_set (current_index s + 1),
                        Timer_set 250 Move_to_next_point]"
    unfolding t by (simp add: mid)
  show ?thesis
    using f1 r1 r2 r3 r4 r5 cl fire by blast
qed

theorem evaluation_defers_next_move_witness:
  "results (snd (check_robot_status ''t'' (demo_gui\<lparr>robot_busy := True\<rparr>))) \<noteq> results (demo_gui\<lparr>robot_busy := True\<rparr>)
   \<and> fst (check_robot_status ''t'' (demo_gui\<lparr>robot_busy := True\<rparr>)) = None
   \<and> \<not> robot_busy (snd (check_robot_status ''t'' (demo_gui\<lparr>robot_busy := True\<rparr>)))
   \<and> current_index (snd (check_robot_status ''t'' (demo_gui\<lparr>robot_busy := True\<rparr>))) = 1
   \<and> single_shots (snd (check_robot_status ''t'' (demo_gui\<lparr>robot_busy := True\<rparr>))) = [(250, Move_to_next_point)]
   \<and> steps (snd (check_robot_status ''t'' (demo_gui\<lparr>robot_busy := True\<rparr>)))
        = [Busy_set False, Index_set 1, Timer_set 250 Move_to_next_point]
   \<and> calls (snd (check_robot_status ''t'' (demo_gui\<lparr>robot_busy := True\<rparr>))) = [Get_coords, Is_moving, Get_coords]
   \<and> calls (snd (perform Single_shot (snd (check_robot_status ''t'' (demo_gui\<lparr>robot_busy := True\<rparr>)))))
        = [Get_coords, Is_moving, Get_coords, Send_coords [50, 0, 100, 180, 0, 0] 10 0]"
proof -
  have r: "results (snd (check_robot_status ''t'' (demo_gui\<lparr>robot_busy := True\<rparr>)))
      = [\<lparr>target = [0, 0, 100, 180, 0, 0], reached = Some [5, 5, 100, 180, 0, 0], error = Some 10,
          pass = False, timestamp = ''t''\<rparr>]"
    by (simp add: check_robot_status_def update_live_pose_def evaluate_point_def finish_point_def
          safe_mc_get_coords_def safe_mc_is_moving_def call_hw_def log_def update_point_color_def
          redraw_def ax_scatter_def valid_named_colors
          position_error_def fsub_def fadd_def demo_gui_def demo_robot_def Let_def)
  then have h: "results (snd (check_robot_status ''t'' (demo_gui\<lparr>robot_busy := True\<rparr>))) \<noteq> results (demo_gui\<lparr>robot_busy := True\<rparr>)"
    by (simp add: demo_gui_def)
  have d: "single_shots (demo_gui\<lparr>robot_busy := True\<rparr>) = [] \<and> drawable (canvas (demo_gui\<lparr>robot_busy := True\<rparr>))"
    by (simp add: demo_gui_def drawable_def valid_named_colors)
  show ?thesis
    using h d evaluation_defers_next_move[OF h] by (simp add: demo_gui_def demo_robot_def)
qed

text \<open>
  Claim C8, as stated, fails: the live pose block runs before the guard. On the window
  left by a click on Pause, with a robot that reports (5, 5, 100, 180, 0, 0), a tick
  queries the coordinates and rewrites the six labels.
\<close>

theorem paused_tick_updates_labels_counterexample:
  "fst (perform Click_pause demo_gui) = None
   \<and> paused (snd (perform Click_pause demo_gui))
   \<and> pose_labels (snd (perform Click_pause demo_gui)) = [NA, NA, NA, NA, NA, NA]
   \<and> calls (snd (perform Click_pause demo_gui)) = []
   \<and> pose_labels (snd (check_robot_status ''t'' (snd (perform Click_pause demo_gui))))
        = [One_decimal 5, One_decimal 5, One_decimal 100, One_decimal 180, One_decimal 0, One_decimal 0]
   \<and> calls (snd (check_robot_status ''t'' (snd (perform Click_pause demo_gui)))) = [Get_coords]
   \<and> snd (check_robot_status ''t'' (snd (perform Click_pause demo_gui)))
        \<noteq> snd (perform Click_pause demo_gui)"
proof -
  have p: "perform Click_pause demo_gui
      = (None, demo_gui\<lparr>pause_btn := True, paused := True, status_box := [Paused_exploration],
                         console := [Connected, Paused_exploration]\<rparr>)"
    by (simp add: perform_def toggle_pause_def log_def Let_def demo_gui_def)
  let ?s = "demo_gui\<lparr>pause_btn := True, paused := True, status_box := [Paused_exploration],
                         console := [Connected, Paused_exploration]\<rparr>"
  have l: "pose_labels (snd (check_robot_status ''t'' ?s))
        = [One_decimal 5, One_decimal 5, One_decimal 100, One_decimal 180, One_decimal 0, One_decimal 0]"
    by (simp add: check_robot_status_def update_live_pose_def safe_mc_get_coords_def call_hw_def
          demo_gui_def demo_robot_def Let_def)
  have c: "calls (snd (check_robot_status ''t'' ?s)) = [Get_coords]"
    by (simp add: check_robot_status_def update_live_pose_def safe_mc_get_coords_def call_hw_def
          demo_gui_def demo_robot_def Let_def)
  have "calls (snd (check_robot_status ''t'' ?s)) \<noteq> calls ?s"
    unfolding c by (simp add: demo_gui_def)
  then have n: "snd (check_robot_status ''t'' ?s) \<noteq> ?s"
    by auto
  show ?thesis unfolding p using l c n by (simp add: demo_gui_def)
qed

text \<open>
  Claim C8, amended. When the pose set is exhausted, or paused, or stopped, the tick
  returns normally after its live pose step: it reads the coordinates once if a handle is
  present and, if they are readable, refreshes the pose labels. It makes no is-moving
  query and no evaluation, and it leaves the handle, the pose set, the cursor, the run
  flags, the canvas, the controls, the status feed, the console, the results, the pending
  timers, the files and the recorded steps unchanged; with an absent handle it changes
  nothing at all.
\<close>

theorem skipped_tick_only_refreshes_pose:
  assumes "length (points s) \<le> current_index s \<or> paused s \<or> stopped s"
  shows "fst (check_robot_status now s) = None
       \<and> calls (snd (check_robot_status now s))
           = calls s @ (case mc s of None \<Rightarrow> [] | Some m \<Rightarrow> [Get_coords])
       \<and> pose_labels (snd (check_robot_status now s))
           = (case fst (safe_mc_get_coords s) of
                Some (c # cs) \<Rightarrow> set_labels (c # cs) (pose_labels s)
              | _ \<Rightarrow> pose_labels s)
       \<and> mc (snd (check_robot_status now s)) = mc s
       \<and> points (snd (check_robot_status now s)) = points s
       \<and> current_index (snd (check_robot_status now s)) = current_index s
       \<and> robot_busy (snd (check_robot_status now s)) = robot_busy s
       \<and> paused (snd (check_robot_status now s)) = paused s
       \<and> stopped (snd (check_robot_status now s)) = stopped s
       \<and> canvas (snd (check_robot_status now s)) = canvas s
       \<and> pause_btn (snd (check_robot_status now s)) = pause_btn s
       \<and> speed_slider (snd (check_robot_status now s)) = speed_slider s
       \<and> status_box (snd (check_robot_status now s)) = status_box s
       \<and> console (snd (check_robot_status now s)) = console s
       \<and> results (snd (check_robot_status now s)) = results s
       \<and> single_shots (snd (check_robot_status now s)) = single_shots s
       \<and> files (snd (check_robot_status now s)) = files s
       \<and> steps (snd (check_robot_status now s)) = steps s
       \<and> (mc s = None \<longrightarrow> snd (check_robot_status now s) = s)"
proof -
  have t: "check_robot_status now s = (None, update_live_pose s)"
    using assms by (auto simp: check_robot_status_def Let_def)
  show ?thesis
    unfolding t by (simp add: update_live_pose_labels update_live_pose_absent)
qed

theorem skipped_tick_only_refreshes_pose_witness:
  "paused (demo_gui\<lparr>paused := True, pause_btn := True\<rparr>)
   \<and> fst (check_robot_status ''t'' (demo_gui\<lparr>paused := True, pause_btn := True\<rparr>)) = None
   \<and> calls (snd (check_robot_status ''t'' (demo_gui\<lparr>paused := True, pause_btn := True\<rparr>))) = [Get_coords]
   \<and> results (snd (check_robot_status ''t'' (demo_gui\<lparr>paused := True, pause_btn := True\<rparr>))) = []
   \<and> single_shots (snd (check_robot_status ''t'' (demo_gui\<lparr>paused := True, pause_btn := True\<rparr>))) = []
   \<and> canvas (snd (check_robot_status ''t'' (demo_gui\<lparr>paused := True, pause_btn := True\<rparr>))) = canvas demo_gui
   \<and> snd (check_robot_status ''t'' (demo_gui\<lparr>stopped := True, mc := None\<rparr>))
        = demo_gui\<lparr>stopped := True, mc := None\<rparr>"
  using skipped_tick_only_refreshes_pose[of "demo_gui\<lparr>paused := True, pause_btn := True\<rparr>" "''t''"]
        skipped_tick_only_refreshes_pose[of "demo_gui\<lparr>stopped := True, mc := None\<rparr>" "''t''"]
  by (simp add: demo_gui_def)

section \<open>Properties of the point evaluation\<close>

lemma position_error_first_three:
  "position_error (x # y # z # f_rest) (tx # ty # tz # t_rest)
     = fadd (fadd \<bar>fsub x tx\<bar> \<bar>fsub y ty\<bar>) \<bar>fsub z tz\<bar>"
  by (simp add: position_error_def)

lemma evaluate_point_readable:
  assumes "fst (safe_mc_get_coords s) = Some (x # y # z # f_rest)"
    and "current_index s < length (points s)"
    and "points s ! current_index s = tx # ty # tz # t_rest"
    and "length (cpoints (canvas s)) = length (points s)"
    and "drawable (canvas s)"
  shows "fst (evaluate_point now s) = None
       \<and> results (snd (evaluate_point now s)) = results s @
            [\<lparr>target = tx # ty # tz # t_rest, reached = Some (x # y # z # f_rest),
              error = Some (position_error (x # y # z # f_rest) (tx # ty # tz # t_rest)),
              pass = (position_error (x # y # z # f_rest) (tx # ty # tz # t_rest) < 10),
              timestamp = now\<rparr>]
       \<and> colors (canvas (snd (evaluate_point now s))) ! current_index s
            = (if position_error (x # y # z # f_rest) (tx # ty # tz # t_rest) < 10
               then white else red)"
proof -
  let ?e = "position_error (x # y # z # f_rest) (tx # ty # tz # t_rest)"
  have len: "current_index s < length (colors (canvas s))"
    using assms(2,4,5) by (simp add: drawable_def)
  have up: "update_point_color (canvas s) (int (current_index s)) col
        = (None, (canvas s)\<lparr>colors := (colors (canvas s))[current_index s := col]\<rparr>)"
    if "valid_color col" for col
    using update_point_color_valid[OF assms(5), of "int (current_index s)" col] assms(2,4) that
    by simp
  show ?thesis
  proof (cases "?e < 10")
    case True
    then show ?thesis
      using assms(1,2,3) len up[OF valid_named_colors(2)]
      by (simp add: evaluate_point_def case_prod_beta Let_def log_def finish_point_def
            set_robot_busy_def set_current_index_def singleShot_def)
  next
    case False
    then show ?thesis
      using assms(1,2,3) len up[OF valid_named_colors(3)]
      by (simp add: evaluate_point_def case_prod_beta Let_def log_def finish_point_def
            set_robot_busy_def set_current_index_def singleShot_def)
  qed
qed

text \<open>
  Claim C2. With a readable final pose and a drawable canvas over the pose set, the
  evaluation returns normally and records as error the float sum of the absolute float
  differences of the first three components: the remaining components of final and
  target do not enter it. The point passes exactly when that error is strictly below 10,
  with a white marker, and fails otherwise, with a red marker. On integer-valued
  positions of magnitude up to \<open>2 ^ 50\<close> the float sum is the exact sum. For target (0, 0, 100, ...) and final
  (5, 5, 100, ...) the error is 10, the point fails and the marker is red; for final
  (3, 3, 100, ...) the error is 6, the point passes and the marker is white.
\<close>

theorem point_evaluation_threshold:
  assumes "fst (safe_mc_get_coords s) = Some (x # y # z # f_rest)"
    and "current_index s < length (points s)"
    and "points s ! current_index s = tx # ty # tz # t_rest"
    and "length (cpoints (canvas s)) = length (points s)"
    and "drawable (canvas s)"
  shows "position_error (x # y # z # f_rest) (tx # ty # tz # t_rest)
           = fadd (fadd \<bar>fsub x tx\<bar> \<bar>fsub y ty\<bar>) \<bar>fsub z tz\<bar>
       \<and> fst (evaluate_point now s) = None
       \<and> results (snd (evaluate_point now s)) = results s @
            [\<lparr>target = tx # ty # tz # t_rest, reached = Some (x # y # z # f_rest),
              error = Some (position_error (x # y # z # f_rest) (tx # ty # tz # t_rest)),
              pass = (position_error (x # y # z # f_rest) (tx # ty # tz # t_rest) < 10),
              timestamp = now\<rparr>]
       \<and> colors (canvas (snd (evaluate_point now s))) ! current_index s
            = (if position_error (x # y # z # f_rest) (tx # ty # tz # t_rest) < 10 then white else red)
       \<and> (\<forall>a b c ta tb tc.
            x = of_int a \<and> y = of_int b \<and> z = of_int c
            \<and> tx = of_int ta \<and> ty = of_int tb \<and> tz = of_int tc
            \<and> \<bar>a\<bar> \<le> 2 ^ 50 \<and> \<bar>b\<bar> \<le> 2 ^ 50 \<and> \<bar>c\<bar> \<le> 2 ^ 50
            \<and> \<bar>ta\<bar> \<le> 2 ^ 50 \<and> \<bar>tb\<bar> \<le> 2 ^ 50 \<and> \<bar>tc\<bar> \<le> 2 ^ 50
            \<longrightarrow> position_error (x # y # z # f_rest) (tx # ty # tz # t_rest)
                  = of_int (\<bar>a - ta\<bar> + \<bar>b - tb\<bar> + \<bar>c - tc\<bar>))
       \<and> (tx = 0 \<and> ty = 0 \<and> tz = 100 \<and> x = 5 \<and> y = 5 \<and> z = 100 \<longrightarrow>
            error (last (results (snd (evaluate_point now s)))) = Some 10
            \<and> \<not> pass (last (results (snd (evaluate_point now s))))
            \<and> colors (canvas (snd (evaluate_point now s))) ! current_index s = red)
       \<and> (tx = 0 \<and> ty = 0 \<and> tz = 100 \<and> x = 3 \<and> y = 3 \<and> z = 100 \<longrightarrow>
            error (last (results (snd (evaluate_point now s)))) = Some 6
            \<and> pass (last (results (snd (evaluate_point now s))))
            \<and> colors (canvas (snd (evaluate_point now s))) ! current_index s = white)"
proof -
  note ev = evaluate_point_readable[OF assms, of now]
  have i10: "position_error (5 # 5 # 100 # f_rest) (0 # 0 # 100 # t_rest) = 10"
    using position_error_int[of 5 5 100 0 0 100 f_rest t_rest] by simp
  have i6: "position_error (3 # 3 # 100 # f_rest) (0 # 0 # 100 # t_rest) = 6"
    using position_error_int[of 3 3 100 0 0 100 f_rest t_rest] by simp
  have int: "position_error (x # y # z # f_rest) (tx # ty # tz # t_rest)
                  = of_int (\<bar>a - ta\<bar> + \<bar>b - tb\<bar> + \<bar>c - tc\<bar>)"
    if "x = of_int a \<and> y = of_int b \<and> z = of_int c
            \<and> tx = of_int ta \<and> ty = of_int tb \<and> tz = of_int tc
            \<and> \<bar>a\<bar> \<le> 2 ^ 50 \<and> \<bar>b\<bar> \<le> 2 ^ 50 \<and> \<bar>c\<bar> \<le> 2 ^ 50
            \<and> \<bar>ta\<bar> \<le> 2 ^ 50 \<and> \<bar>tb\<bar> \<le> 2 ^ 50 \<and> \<bar>tc\<bar> \<le> 2 ^ 50" for a b c ta tb tc
    using that position_error_int[of a b c ta tb tc f_rest t_rest] by blast
  have hi: "tx = 0 \<and> ty = 0 \<and> tz = 100 \<and> x = 5 \<and> y = 5 \<and> z = 100 \<longrightarrow>
            error (last (results (snd (evaluate_point now s)))) = Some 10
            \<and> \<not> pass (last (results (snd (evaluate_point now s))))
            \<and> colors (canvas (snd (evaluate_point now s))) ! current_index s = red"
    using ev i10 by auto
  have lo: "tx = 0 \<and> ty = 0 \<and> tz = 100 \<and> x = 3 \<and> y = 3 \<and> z = 100 \<longrightarrow>
            error (last (results (snd (evaluate_point now s)))) = Some 6
            \<and> pass (last (results (snd (evaluate_point now s))))
            \<and> colors (canvas (snd (evaluate_point now s))) ! current_index s = white"
    using ev i6 by auto
  show ?thesis
    using position_error_first_three[of x y z f_rest tx ty tz t_rest] ev int hi lo by blast
qed

theorem point_evaluation_threshold_witness:
  "error (last (results (snd (evaluate_point ''t'' (demo_gui\<lparr>robot_busy := True\<rparr>))))) = Some 10
   \<and> \<not> pass (last (results (snd (evaluate_point ''t'' (demo_gui\<lparr>robot_busy := True\<rparr>)))))
   \<and> colors (canvas (snd (evaluate_point ''t'' (demo_gui\<lparr>robot_busy := True\<rparr>)))) ! 0 = red
   \<and> error (last (results (snd (evaluate_point ''t''
        (demo_gui\<lparr>robot_busy := True,
           mc := Some (demo_robot\<lparr>get_coords := (\<lambda>d. (Returns [3, 3, 100, 170, 1, 2], d))\<rparr>)\<rparr>))))) = Some 6
   \<and> pass (last (results (snd (evaluate_point ''t''
        (demo_gui\<lparr>robot_busy := True,
           mc := Some (demo_robot\<lparr>get_coords := (\<lambda>d. (Returns [3, 3, 100, 170, 1, 2], d))\<rparr>)\<rparr>)))))
   \<and> colors (canvas (snd (evaluate_point ''t''
        (demo_gui\<lparr>robot_busy := True,
           mc := Some (demo_robot\<lparr>get_coords := (\<lambda>d. (Returns [3, 3, 100, 170, 1, 2], d))\<rparr>)\<rparr>)))) ! 0 = white"
proof -
  let ?a = "demo_gui\<lparr>robot_busy := True\<rparr>"
  let ?b = "demo_gui\<lparr>robot_busy := True,
           mc := Some (demo_robot\<lparr>get_coords := (\<lambda>d. (Returns [3, 3, 100, 170, 1, 2], d))\<rparr>)\<rparr>"
  have a: "fst (safe_mc_get_coords ?a) = Some (5 # 5 # 100 # [180, 0, 0])"
     "current_index ?a < length (points ?a)"
     "points ?a ! current_index ?a = 0 # 0 # 100 # [180, 0, 0]"
     "length (cpoints (canvas ?a)) = length (points ?a)"
     "drawable (canvas ?a)"
    by (simp_all add: safe_mc_get_coords_def call_hw_def demo_gui_def demo_robot_def
          drawable_def valid_named_colors)
  have b: "fst (safe_mc_get_coords ?b) = Some (3 # 3 # 100 # [170, 1, 2])"
     "current_index ?b < length (points ?b)"
     "points ?b ! current_index ?b = 0 # 0 # 100 # [180, 0, 0]"
     "length (cpoints (canvas ?b)) = length (points ?b)"
     "drawable (canvas ?b)"
    by (simp_all add: safe_mc_get_coords_def call_hw_def demo_gui_def demo_robot_def
          drawable_def valid_named_colors)
  have i: "current_index ?a = 0" "current_index ?b = 0" by (simp_all add: demo_gui_def)
  show ?thesis
    using point_evaluation_threshold[OF a, of "''t''"] point_evaluation_threshold[OF b, of "''t''"]
    unfolding i by simp
qed

section \<open>Properties of the CSV export\<close>

lemma write_rows_ok:
  "write_rows None k (map Inr rows) out = (None, out @ rows)"
  by (induction rows arbitrary: k out) simp_all

lemma export_row_ok:
  assumes "six_components r"
  shows "export_row r =
     Inr (Text (timestamp r) # map Number (target r) @
          (case reached r of None \<Rightarrow> replicate 6 None_cell | Some p \<Rightarrow> map Number p) @
          [case error r of None \<Rightarrow> None_cell | Some e \<Rightarrow> Number e, Boolean (pass r)])"
  using assms
  by (auto simp: export_row_def six_components_def Let_def split: option.splits list.splits)

lemma export_rows_ok:
  "list_all six_components rs \<Longrightarrow>
   map export_row rs =
     map Inr (map (\<lambda>r. Text (timestamp r) # map Number (target r) @
          (case reached r of None \<Rightarrow> replicate 6 None_cell | Some p \<Rightarrow> map Number p) @
          [case error r of None \<Rightarrow> None_cell | Some e \<Rightarrow> Number e, Boolean (pass r)]) rs)"
  by (induction rs) (simp_all add: export_row_ok)

lemma write_rows_cons:
  "write_rows None k (Inr r # map Inr rows) out = (None, out @ r # rows)"
  using write_rows_ok[of k "r # rows" out] by simp

lemma export_log_ok:
  assumes "results s \<noteq> []" "list_all six_components (results s)"
  shows "export_log stamp None s =
     log (Exported_log (''workspace_log_'' @ stamp @ ''.csv''))
       (s\<lparr>files := (files s)(''workspace_log_'' @ stamp @ ''.csv'' \<mapsto>
          header # map (\<lambda>r. Text (timestamp r) # map Number (target r) @
          (case reached r of None \<Rightarrow> replicate 6 None_cell | Some p \<Rightarrow> map Number p) @
          [case error r of None \<Rightarrow> None_cell | Some e \<Rightarrow> Number e, Boolean (pass r)]) (results s))\<rparr>)"
proof -
  let ?rows = "map (\<lambda>r. Text (timestamp r) # map Number (target r) @
          (case reached r of None \<Rightarrow> replicate 6 None_cell | Some p \<Rightarrow> map Number p) @
          [case error r of None \<Rightarrow> None_cell | Some e \<Rightarrow> Number e, Boolean (pass r)]) (results s)"
  have "write_rows None 1 (Inr header # map export_row (results s)) []
      = write_rows None 1 (Inr header # map Inr ?rows) []"
    by (simp only: export_rows_ok[OF assms(2)])
  also have "\<dots> = (None, [] @ header # ?rows)"
    by (rule write_rows_cons)
  finally have "write_rows None 1 (Inr header # map export_row (results s)) [] = (None, header # ?rows)"
    by simp
  then show ?thesis using assms(1) by (simp add: export_log_def Let_def)
qed

lemma csv_row_shape:
  assumes "six_components r"
  defines "row \<equiv> Text (timestamp r) # map Number (target r) @
          (case reached r of None \<Rightarrow> replicate 6 None_cell | Some p \<Rightarrow> map Number p) @
          [case error r of None \<Rightarrow> None_cell | Some e \<Rightarrow> Number e, Boolean (pass r)]"
  shows "length row = 15" "row ! 0 = Text (timestamp r)"
    "take 6 (drop 1 row) = map Number (target r)"
    "reached r = None \<Longrightarrow> take 6 (drop 7 row) = replicate 6 None_cell"
    "reached r = Some p \<Longrightarrow> take 6 (drop 7 row) = map Number p"
    "drop 14 row = [Boolean (pass r)]"
  using assms(1) unfolding row_def
  by (auto simp: six_components_def split: option.splits)

text \<open>
  Claim C9. With no recorded result, export only logs the no-results message and writes
  no file. With N recorded results of six-component poses and no failing file operation,
  the file written holds the header row followed by N rows, N + 1 in all, the i-th row
  made from the i-th result: fifteen cells, the timestamp, the six target components,
  the six reached components, the error and the pass flag; where the reached pose is
  absent, all six reached cells are \<open>None\<close>.
\<close>

theorem export_log_rows:
  "(results s = [] \<longrightarrow>
      export_log stamp io s = log No_results_to_export s
      \<and> files (export_log stamp io s) = files s
      \<and> status_box (export_log stamp io s) = status_box s @ [No_results_to_export])
   \<and> (results s \<noteq> [] \<and> io = None \<and> list_all six_components (results s) \<longrightarrow>
        (\<exists>rows. files (export_log stamp io s) (''workspace_log_'' @ stamp @ ''.csv'') = Some (header # rows)
           \<and> length (header # rows) = length (results s) + 1
           \<and> (\<forall>i. i < length (results s) \<longrightarrow>
                 length (rows ! i) = 15
               \<and> rows ! i ! 0 = Text (timestamp (results s ! i))
               \<and> take 6 (drop 1 (rows ! i)) = map Number (target (results s ! i))
               \<and> (reached (results s ! i) = None \<longrightarrow>
                    take 6 (drop 7 (rows ! i)) = replicate 6 None_cell)
               \<and> (\<forall>p. reached (results s ! i) = Some p \<longrightarrow>
                    take 6 (drop 7 (rows ! i)) = map Number p)
               \<and> drop 14 (rows ! i) = [Boolean (pass (results s ! i))])))"
proof -
  have a: "export_log stamp io s = log No_results_to_export s" if "results s = []"
    using that by (simp add: export_log_def)
  have b: "\<exists>rows. files (export_log stamp io s) (''workspace_log_'' @ stamp @ ''.csv'') = Some (header # rows)
           \<and> length (header # rows) = length (results s) + 1
           \<and> (\<forall>i. i < length (results s) \<longrightarrow>
                 length (rows ! i) = 15
               \<and> rows ! i ! 0 = Text (timestamp (results s ! i))
               \<and> take 6 (drop 1 (rows ! i)) = map Number (target (results s ! i))
               \<and> (reached (results s ! i) = None \<longrightarrow>
                    take 6 (drop 7 (rows ! i)) = replicate 6 None_cell)
               \<and> (\<forall>p. reached (results s ! i) = Some p \<longrightarrow>
                    take 6 (drop 7 (rows ! i)) = map Number p)
               \<and> drop 14 (rows ! i) = [Boolean (pass (results s ! i))])"
    if h: "results s \<noteq> []" "io = None" "list_all six_components (results s)"
  proof -
    define f :: "visit \<Rightarrow> cell list" where "f = (\<lambda>r. Text (timestamp r) # map Number (target r) @
          (case reached r of None \<Rightarrow> replicate 6 None_cell | Some p \<Rightarrow> map Number p) @
          [case error r of None \<Rightarrow> None_cell | Some e \<Rightarrow> Number e, Boolean (pass r)])"
    have six: "six_components (results s ! i)" if "i < length (results s)" for i
      using h(3) that by (simp add: list_all_length)
    have fl: "files (export_log stamp io s) (''workspace_log_'' @ stamp @ ''.csv'')
        = Some (header # map f (results s))"
      unfolding h(2) export_log_ok[OF h(1) h(3)] f_def by (simp add: log_def)
    have rows: "length (map f (results s) ! i) = 15
               \<and> map f (results s) ! i ! 0 = Text (timestamp (results s ! i))
               \<and> take 6 (drop 1 (map f (results s) ! i)) = map Number (target (results s ! i))
               \<and> (reached (results s ! i) = None \<longrightarrow>
                    take 6 (drop 7 (map f (results s) ! i)) = replicate 6 None_cell)
               \<and> (\<forall>p. reached (results s ! i) = Some p \<longrightarrow>
                    take 6 (drop 7 (map f (results s) ! i)) = map Number p)
               \<and> drop 14 (map f (results s) ! i) = [Boolean (pass (results s ! i))]"
      if "i < length (results s)" for i
    proof -
      have n: "map f (results s) ! i = f (results s ! i)" using that by simp
      show ?thesis
        unfolding n unfolding f_def using csv_row_shape[OF six[OF that]] by blast
    qed
    show ?thesis
      using fl rows by (intro exI[of _ "map f (results s)"]) simp
  qed
  show ?thesis using a b by (simp add: log_def)
qed

theorem export_log_rows_witness:
  "export_log ''20260101_000000'' None demo_gui = log No_results_to_export demo_gui
   \<and> files (export_log ''20260101_000000'' None
        (demo_gui\<lparr>results := [\<lparr>target = [0, 0, 100, 180, 0, 0], reached = None, error = None,
                                pass = False, timestamp = ''t''\<rparr>]\<rparr>)) ''workspace_log_20260101_000000.csv''
      = Some [header,
              [Text ''t'', Number 0, Number 0, Number 100, Number 180, Number 0, Number 0,
               None_cell, None_cell, None_cell, None_cell, None_cell, None_cell, None_cell,
               Boolean False]]"
proof -
  let ?s = "demo_gui\<lparr>results := [\<lparr>target = [0, 0, 100, 180, 0, 0], reached = None, error = None,
                                pass = False, timestamp = ''t''\<rparr>]\<rparr>"
  have e: "results demo_gui = []" by (simp add: demo_gui_def)
  have h: "results ?s \<noteq> [] \<and> (None::nat option) = None \<and> list_all six_components (results ?s)"
    by (simp add: six_components_def)
  have v: "files (export_log ''20260101_000000'' None ?s) ''workspace_log_20260101_000000.csv''
      = Some [header,
              [Text ''t'', Number 0, Number 0, Number 100, Number 180, Number 0, Number 0,
               None_cell, None_cell, None_cell, None_cell, None_cell, None_cell, None_cell,
               Boolean False]]"
    by (simp add: export_log_def export_row_def log_def Let_def eval_nat_numeral)
  show ?thesis
    using export_log_rows[of demo_gui "''20260101_000000''" None] e
          export_log_rows[of ?s "''20260101_000000''" None] h v
    by simp
qed

section \<open>Hardware calls outside the wrappers\<close>

lemma default_grid_length:
  "\<exists>pts. generate_grid_points_default = Inr pts \<and> length pts = 676
      \<and> list_all (\<lambda>p. 3 \<le> length p) pts"
proof -
  have "list_all (\<lambda>p. 3 \<le> length p)
      (concat (map (\<lambda>z. concat (map (\<lambda>x. map (\<lambda>y. [of_int x, of_int y, z, 180, 0, 0::real])
            default_axis_values) default_axis_values)) [40, 50, 100, 200]))"
    by (intro list_all_concat_map) (simp add: list_all_iff)
  then show ?thesis
    using length_concat_uniform[of "[40, 50, 100, 200::real]" "\<lambda>z. concat (map (\<lambda>x. map (\<lambda>y. [of_int x, of_int y, z, 180, 0, 0::real])
            default_axis_values) default_axis_values)" 169]
    by (simp add: default_grid plane_length)
qed

lemma WorkspaceGUI_constructed:
  "\<exists>s. WorkspaceGUI connection d = Inr s \<and> mc s = connection \<and> \<not> stopped s \<and> \<not> paused s
      \<and> current_index s = 0 \<and> length (points s) = 676"
proof -
  obtain pts where pts: "generate_grid_points_default = Inr pts" "length pts = 676"
      "list_all (\<lambda>p. 3 \<le> length p) pts"
    using default_grid_length by blast
  let ?cv = "\<lparr>cpoints = pts, colors = replicate (length pts) blue, scatter = True\<rparr>"
  have cv: "MplCanvas pts = Inr ?cv"
    using pts(3) by (simp add: MplCanvas_def ax_scatter_def valid_named_colors list_all_iff)
  have "drawable ?cv" using MplCanvas_constructed[OF cv] by simp
  from highlight_point_drawable[OF this, of 0]
  have h: "fst (highlight_point ?cv 0) = None" by simp
  have ne: "pts \<noteq> []" using pts(2) by auto
  show ?thesis
    using h by (simp add: WorkspaceGUI_def pts(1) cv Let_def pts(2) ne case_prod_beta)
qed

lemma go_home_absent: "mc s = None \<Longrightarrow> fst (go_home s) = Some AttributeError"
  by (simp add: go_home_def Let_def log_def)

lemma emergency_stop_absent: "mc s = None \<Longrightarrow> mc (emergency_stop s) = None"
  by (simp add: emergency_stop_def attempt_stop_api_def safe_mc_get_coords_def Let_def log_def)

lemma clear_stop_absent: "mc s = None \<Longrightarrow> stopped s \<Longrightarrow> fst (clear_stop s) = Some AttributeError"
  by (simp add: clear_stop_def Let_def print_def)

text \<open>
  Claim C1 at its failing input. The window constructed after a failed connection has an
  absent handle. There, Go Home raises AttributeError, and so does the reset after an
  emergency stop; with a handle whose \<open>send_angles\<close> raises, Go Home lets that exception
  escape.
\<close>

theorem go_home_absent_handle_raises:
  "\<exists>s. WorkspaceGUI None () = Inr s \<and> mc s = None
      \<and> fst (go_home s) = Some AttributeError
      \<and> fst (perform Click_home s) = Some AttributeError
      \<and> stopped (emergency_stop s)
      \<and> fst (clear_stop (emergency_stop s)) = Some AttributeError
      \<and> fst (go_home (demo_gui\<lparr>mc := Some (demo_robot\<lparr>send_angles := (\<lambda>angles speed d. (Raises, d))\<rparr>)\<rparr>))
           = Some HardwareError"
proof -
  obtain s where s: "WorkspaceGUI None () = Inr s" "mc s = None"
    using WorkspaceGUI_constructed[of None "()"] by auto
  have r: "fst (go_home (demo_gui\<lparr>mc := Some (demo_robot\<lparr>send_angles := (\<lambda>angles speed d. (Raises, d))\<rparr>)\<rparr>))
           = Some HardwareError"
    by (simp add: go_home_def call_hw_def log_def Let_def demo_gui_def demo_robot_def)
  have "fst (go_home s) = Some AttributeError" "fst (perform Click_home s) = Some AttributeError"
    "stopped (emergency_stop s)" "fst (clear_stop (emergency_stop s)) = Some AttributeError"
    using s(2) emergency_stop_flags[of s]
    by (simp_all add: go_home_absent perform_def emergency_stop_absent clear_stop_absent)
  with s r show ?thesis by blast
qed

end
